theory Spec2Isabelle
  imports Complex_Main "HOL-Library.Multiset"
begin

section \<open>Values, errors and data frames\<close>

text \<open>
  A float64 is modelled as a real number or one of the three special values; rounding
  and overflow are not modelled. A cell of a data frame is a float, a text, a timestamp
  (nanoseconds since the epoch, as pandas stores \<open>datetime64[ns]\<close>) or the missing
  timestamp \<open>NaT\<close>. A missing value of a non-datetime column is \<open>Flt NaN\<close>.
\<close>

datatype fl = Fin real | PosInf | NegInf | NaN

datatype cell = Flt fl | Txt string | Stamp int | NaT

datatype error =
    ValueError string
  | KeyError string
  | TypeError string
  | IndexError string
  | FileNotFoundError string
  | OverflowError string

text \<open>
  A frame holds its column labels and its rows; a row maps a label to its cell, and a
  label that is not a column of the frame to \<open>Flt NaN\<close>. Labels are distinct, as
  \<open>read_csv\<close> makes them. Row labels (the pandas index) are not part of the model:
  nothing in the service reads them, so \<open>reset_index(drop=True)\<close> leaves a frame
  as it is.
\<close>

type_synonym row = "string \<Rightarrow> cell"

record frame =
  columns :: "string list"
  rows :: "row list"

definition PRODUCT_COLS :: "string list" where
  "PRODUCT_COLS = [''M01AB'', ''M01AE'', ''N02BA'', ''N02BE'', ''N05B'', ''N05C'', ''R03'', ''R06'']"

definition DATE_COL :: string where
  "DATE_COL = ''datum''"

text \<open>\<open>df[c]\<close>: the cells of one column, or \<open>KeyError\<close>.\<close>

definition column :: "frame \<Rightarrow> string \<Rightarrow> error + cell list" where
  "column df c =
     (if c \<in> set (columns df) then Inr (map (\<lambda>r. r c) (rows df)) else Inl (KeyError c))"

subsection \<open>Float comparison and arithmetic\<close>

text \<open>Python's \<open><\<close> and \<open><=\<close> on floats: every comparison with NaN is false.\<close>

fun fl_less :: "fl \<Rightarrow> fl \<Rightarrow> bool" where
  "fl_less NaN _ = False"
| "fl_less _ NaN = False"
| "fl_less (Fin x) (Fin y) = (x < y)"
| "fl_less (Fin _) PosInf = True"
| "fl_less NegInf (Fin _) = True"
| "fl_less NegInf PosInf = True"
| "fl_less _ _ = False"

fun fl_le :: "fl \<Rightarrow> fl \<Rightarrow> bool" where
  "fl_le NaN _ = False"
| "fl_le _ NaN = False"
| "fl_le (Fin x) (Fin y) = (x \<le> y)"
| "fl_le NegInf _ = True"
| "fl_le _ PosInf = True"
| "fl_le _ _ = False"

fun fl_neg :: "fl \<Rightarrow> fl" where
  "fl_neg (Fin x) = Fin (- x)"
| "fl_neg PosInf = NegInf"
| "fl_neg NegInf = PosInf"
| "fl_neg NaN = NaN"

fun fl_add :: "fl \<Rightarrow> fl \<Rightarrow> fl" where
  "fl_add NaN _ = NaN"
| "fl_add _ NaN = NaN"
| "fl_add (Fin x) (Fin y) = Fin (x + y)"
| "fl_add PosInf NegInf = NaN"
| "fl_add NegInf PosInf = NaN"
| "fl_add PosInf _ = PosInf"
| "fl_add NegInf _ = NegInf"
| "fl_add (Fin _) y = y"

definition fl_sub :: "fl \<Rightarrow> fl \<Rightarrow> fl" where
  "fl_sub a b = fl_add a (fl_neg b)"

definition fl_sgn :: "fl \<Rightarrow> int" where
  "fl_sgn a = (case a of Fin x \<Rightarrow> (if x < 0 then - 1 else if x = 0 then 0 else 1)
                 | PosInf \<Rightarrow> 1 | NegInf \<Rightarrow> - 1 | NaN \<Rightarrow> 0)"

fun fl_mul :: "fl \<Rightarrow> fl \<Rightarrow> fl" where
  "fl_mul NaN _ = NaN"
| "fl_mul _ NaN = NaN"
| "fl_mul (Fin x) (Fin y) = Fin (x * y)"
| "fl_mul a b =
     (if fl_sgn a * fl_sgn b = 0 then NaN else if fl_sgn a * fl_sgn b < 0 then NegInf else PosInf)"

text \<open>Division by a positive finite number (a row count, or the 3600 seconds of an hour).\<close>

fun fl_div_by :: "fl \<Rightarrow> real \<Rightarrow> fl" where
  "fl_div_by (Fin x) d = Fin (x / d)"
| "fl_div_by a d = a"

fun fl_sqrt :: "fl \<Rightarrow> fl" where
  "fl_sqrt (Fin x) = (if x < 0 then NaN else Fin (sqrt x))"
| "fl_sqrt PosInf = PosInf"
| "fl_sqrt NegInf = NaN"
| "fl_sqrt NaN = NaN"

section \<open>Frequency detection (\<open>_detect_frequency\<close>)\<close>

definition is_date :: "cell \<Rightarrow> bool" where
  "is_date c = (case c of Stamp _ \<Rightarrow> True | NaT \<Rightarrow> True | _ \<Rightarrow> False)"

definition is_stamp :: "cell \<Rightarrow> bool" where
  "is_stamp c = (case c of Stamp _ \<Rightarrow> True | _ \<Rightarrow> False)"

definition stamp_val :: "cell \<Rightarrow> int" where
  "stamp_val c = (case c of Stamp t \<Rightarrow> t | _ \<Rightarrow> 0)"

text \<open>
  \<open>df.sort_values(c)\<close> on a datetime column: ascending, rows without a timestamp last
  and in their input order. pandas sorts the timestamps with \<open>np.argsort\<close> and its
  default \<open>kind='quicksort'\<close>, which is not stable: the order of rows with equal
  timestamps is the algorithm's. The algorithm is the parameter \<open>argsort\<close>, from the
  keys to the positions in sorted order; \<open>argsort_ok\<close> is what numpy promises of it.
\<close>

definition argsort_ok :: "(int list \<Rightarrow> nat list) \<Rightarrow> bool" where
  "argsort_ok argsort =
     (\<forall>ks. mset (argsort ks) = mset [0..<length ks] \<and> sorted (map (\<lambda>i. ks ! i) (argsort ks)))"

definition sort_values :: "(int list \<Rightarrow> nat list) \<Rightarrow> string \<Rightarrow> frame \<Rightarrow> error + frame" where
  "sort_values argsort c df =
     (if c \<notin> set (columns df) then Inl (KeyError c)
      else
        let stamped = filter (\<lambda>r. is_stamp (r c)) (rows df);
            missing = filter (\<lambda>r. \<not> is_stamp (r c)) (rows df)
        in Inr (df\<lparr>rows :=
                  map (\<lambda>i. stamped ! i) (argsort (map (\<lambda>r. stamp_val (r c)) stamped))
                  @ missing\<rparr>))"

text \<open>\<open>.diff().dropna()\<close>: differences of successive timestamps; a difference with a
  missing side is missing and is dropped.\<close>

fun diffs :: "cell list \<Rightarrow> int list" where
  "diffs (Stamp a # Stamp b # r) = (b - a) # diffs (Stamp b # r)"
| "diffs (x # y # r) = diffs (y # r)"
| "diffs _ = []"

text \<open>\<open>.median()\<close> of a float series: NaN when the series is empty.\<close>

definition median :: "real list \<Rightarrow> fl" where
  "median xs =
     (let s = sort xs; n = length s in
      if n = 0 then NaN
      else if odd n then Fin (s ! (n div 2))
      else Fin ((s ! (n div 2 - 1) + s ! (n div 2)) / 2))"

definition total_seconds :: "int \<Rightarrow> real" where
  "total_seconds d = real_of_int d / 1000000000"

definition median_gap_hours :: "cell list \<Rightarrow> fl" where
  "median_gap_hours dates = fl_div_by (median (map total_seconds (diffs dates))) 3600"

definition lower_char :: "char \<Rightarrow> char" where
  "lower_char c =
     (let n = (of_char c :: nat) in if 65 \<le> n \<and> n \<le> 90 then char_of (n + 32) else c)"

definition lower :: "string \<Rightarrow> string" where
  "lower s = map lower_char s"

definition startswith :: "string \<Rightarrow> string \<Rightarrow> bool" where
  "startswith s p = (take (length p) s = p)"

text \<open>The branch on the result of \<open>pd.infer_freq\<close>; \<open>None\<close> falls through to the
  manual detection.\<close>

definition inferred_frequency :: "string option \<Rightarrow> string option" where
  "inferred_frequency inferred =
     (case inferred of
        None \<Rightarrow> None
      | Some s \<Rightarrow>
          if startswith (lower s) ''h'' then Some ''H''
          else if startswith (lower s) ''d'' then Some ''D''
          else if startswith (lower s) ''w'' then Some ''W''
          else if startswith (lower s) ''m'' then Some ''M''
          else None)"

definition manual_detection :: "fl \<Rightarrow> string" where
  "manual_detection median_gap_hours_v =
     (if fl_le median_gap_hours_v (Fin 1.5) then ''H''
      else if fl_le median_gap_hours_v (Fin 25) then ''D''
      else if fl_le median_gap_hours_v (Fin 200) then ''W''
      else ''M'')"

text \<open>
  \<open>pd.infer_freq\<close>: it raises on fewer than three dates; what it infers from three or
  more is the parameter \<open>infer\<close>, a frequency string or None.
\<close>

definition pd_infer_freq :: "(cell list \<Rightarrow> string option) \<Rightarrow> cell list \<Rightarrow> error + string option" where
  "pd_infer_freq infer dates =
     (if length dates < 3 then Inl (ValueError ''Need at least 3 dates to infer frequency'')
      else Inr (infer dates))"

text \<open>\<open>_detect_frequency(df)\<close>: the library inference first, the median gap when it
  reports nothing that starts with h, d, w or m.\<close>

definition detect_frequency ::
  "(int list \<Rightarrow> nat list) \<Rightarrow> (cell list \<Rightarrow> string option) \<Rightarrow> frame \<Rightarrow> error + string" where
  "detect_frequency argsort infer df =
     (case sort_values argsort DATE_COL df of
        Inl e \<Rightarrow> Inl e
      | Inr df1 \<Rightarrow>
     (case column df1 DATE_COL of
        Inl e \<Rightarrow> Inl e
      | Inr dates \<Rightarrow>
     (case pd_infer_freq infer dates of
        Inl e \<Rightarrow> Inl e
      | Inr inferred \<Rightarrow>
     (case inferred_frequency inferred of
        Some f \<Rightarrow> Inr f
      | None \<Rightarrow>
          if \<not> list_all is_date dates
          then Inl (TypeError ''unsupported operand type(s) for -'')
          else Inr (manual_detection (median_gap_hours dates))))))"

section \<open>Cleaning (\<open>_prep_dataframe\<close>)\<close>

text \<open>Python's \<open>str.strip()\<close> on the ASCII whitespace characters.\<close>

definition is_space :: "char \<Rightarrow> bool" where
  "is_space c = (let n = (of_char c :: nat) in (9 \<le> n \<and> n \<le> 13) \<or> (28 \<le> n \<and> n \<le> 32))"

definition strip :: "string \<Rightarrow> string" where
  "strip s = rev (dropWhile is_space (rev (dropWhile is_space s)))"

fun join :: "string \<Rightarrow> string list \<Rightarrow> string" where
  "join sep [] = []"
| "join sep [x] = x"
| "join sep (x # y # r) = x @ sep @ join sep (y # r)"

text \<open>\<open>df.rename(columns={old: new})\<close>.\<close>

definition rename_col :: "string \<Rightarrow> string \<Rightarrow> frame \<Rightarrow> frame" where
  "rename_col old new df =
     \<lparr>columns = map (\<lambda>c. if c = old then new else c) (columns df),
      rows = map (\<lambda>r k. if k = new then r old else if k = old then Flt NaN else r k) (rows df)\<rparr>"

text \<open>The first block of \<open>_prep_dataframe\<close>: find the date column, by its exact name or
  by its name stripped and in lower case.\<close>

definition resolve_date_col :: "frame \<Rightarrow> error + frame" where
  "resolve_date_col df =
     (if DATE_COL \<in> set (columns df) then Inr df
      else
        (case filter (\<lambda>c. lower (strip c) = lower DATE_COL) (columns df) of
           [] \<Rightarrow> Inl (ValueError (''CSV must contain a '' @ [CHR 0x27] @ DATE_COL @ [CHR 0x27] @ '' column.''))
         | cand # _ \<Rightarrow> Inr (rename_col cand DATE_COL df)))"

text \<open>
  \<open>pd.to_datetime\<close> of one cell. A timestamp stays, a missing value becomes \<open>NaT\<close>;
  the parsing of any other cell is the parameter \<open>parse\<close>, which returns a timestamp,
  nothing (\<open>NaT\<close>), or raises.
\<close>

fun to_datetime :: "(cell \<Rightarrow> error + int option) \<Rightarrow> cell \<Rightarrow> error + cell" where
  "to_datetime parse (Stamp t) = Inr (Stamp t)"
| "to_datetime parse NaT = Inr NaT"
| "to_datetime parse (Flt NaN) = Inr NaT"
| "to_datetime parse c =
     (case parse c of Inl e \<Rightarrow> Inl e | Inr None \<Rightarrow> Inr NaT | Inr (Some t) \<Rightarrow> Inr (Stamp t))"

text \<open>The results of a list of steps, or the first error among them.\<close>

fun sequence :: "(error + 'a) list \<Rightarrow> error + 'a list" where
  "sequence [] = Inr []"
| "sequence (Inl e # _) = Inl e"
| "sequence (Inr v # r) = (case sequence r of Inl e \<Rightarrow> Inl e | Inr vs \<Rightarrow> Inr (v # vs))"

text \<open>\<open>df[c] = values\<close>, for a column the frame has.\<close>

definition set_column :: "string \<Rightarrow> cell list \<Rightarrow> frame \<Rightarrow> frame" where
  "set_column c vs df = df\<lparr>rows := map2 (\<lambda>r v. r(c := v)) (rows df) vs\<rparr>"

text \<open>\<open>df[c] = pd.to_datetime(df[c])\<close>.\<close>

definition to_datetime_col :: "(cell \<Rightarrow> error + int option) \<Rightarrow> string \<Rightarrow> frame \<Rightarrow> error + frame" where
  "to_datetime_col parse c df =
     (case column df c of
        Inl e \<Rightarrow> Inl e
      | Inr ds \<Rightarrow>
          (case sequence (map (to_datetime parse) ds) of
             Inl e \<Rightarrow> Inl e
           | Inr parsed \<Rightarrow> Inr (set_column c parsed df)))"

text \<open>\<open>df[cols]\<close>, for columns the frame has.\<close>

definition select :: "string list \<Rightarrow> frame \<Rightarrow> frame" where
  "select cols df =
     \<lparr>columns = cols, rows = map (\<lambda>r k. if k \<in> set cols then r k else Flt NaN) (rows df)\<rparr>"

definition isna :: "cell \<Rightarrow> bool" where
  "isna c = (c = Flt NaN \<or> c = NaT)"

text \<open>\<open>df[cols] = df[cols].fillna(v)\<close>.\<close>

definition fillna :: "string list \<Rightarrow> cell \<Rightarrow> frame \<Rightarrow> frame" where
  "fillna cols v df =
     df\<lparr>rows := map (\<lambda>r k. if k \<in> set cols \<and> isna (r k) then v else r k) (rows df)\<rparr>"

definition prep_dataframe ::
  "(int list \<Rightarrow> nat list) \<Rightarrow> (cell \<Rightarrow> error + int option) \<Rightarrow> frame \<Rightarrow> error + frame" where
  "prep_dataframe argsort parse df0 =
     (case resolve_date_col df0 of
        Inl e \<Rightarrow> Inl e
      | Inr df1 \<Rightarrow>
     (case to_datetime_col parse DATE_COL df1 of
        Inl e \<Rightarrow> Inl e
      | Inr df2 \<Rightarrow>
     (case sort_values argsort DATE_COL df2 of
        Inl e \<Rightarrow> Inl e
      | Inr df3 \<Rightarrow>
          let missing = filter (\<lambda>c. c \<notin> set (columns df3)) PRODUCT_COLS in
          if missing \<noteq> []
          then Inl (ValueError (''CSV is missing required product columns: '' @ join '', '' missing))
          else
            let cols = DATE_COL # PRODUCT_COLS;
                df4 = select cols df3;
                df5 = df4\<lparr>rows := filter (\<lambda>r. \<not> list_all (\<lambda>c. isna (r c)) PRODUCT_COLS) (rows df4)\<rparr>
            in Inr (fillna PRODUCT_COLS (Flt (Fin 0)) df5))))"

section \<open>Recursive forecasting (\<open>_multi_step_forecast\<close>)\<close>

text \<open>
  A two-dimensional array is the list of its rows. The trained network and the scaler
  are parameters: \<open>predict\<close> maps a window to the next-step vector (or raises),
  \<open>inverse_transform\<close> maps the scaled predictions back (or raises).
\<close>

type_synonym matrix = "fl list list"

definition n_elems :: "matrix \<Rightarrow> nat" where
  "n_elems m = sum_list (map length m)"

text \<open>\<open>shape[1]\<close> of a window with at least one row.\<close>

definition width :: "matrix \<Rightarrow> nat" where
  "width m = (case m of [] \<Rightarrow> 0 | r # _ \<Rightarrow> length r)"

text \<open>
  The loop of \<open>_multi_step_forecast\<close>, one equation per pass. \<open>seq.reshape(1, SEQ_LEN,
  n_feat)\<close> raises unless the window has \<open>SEQ_LEN * n_feat\<close> elements, and
  \<open>np.vstack([seq[1:], yhat])\<close> raises unless \<open>yhat\<close> has \<open>n_feat\<close> elements.
\<close>

fun forecast_steps ::
  "(matrix \<Rightarrow> error + fl list) \<Rightarrow> nat \<Rightarrow> nat \<Rightarrow> nat \<Rightarrow> matrix \<Rightarrow> matrix \<Rightarrow> error + matrix" where
  "forecast_steps predict SEQ_LEN n_feat 0 seq preds_scaled = Inr preds_scaled"
| "forecast_steps predict SEQ_LEN n_feat (Suc k) seq preds_scaled =
     (if n_elems seq \<noteq> SEQ_LEN * n_feat
      then Inl (ValueError ''cannot reshape array'')
      else
        (case predict seq of
           Inl e \<Rightarrow> Inl e
         | Inr yhat \<Rightarrow>
             if length yhat \<noteq> n_feat
             then Inl (ValueError ''all the input array dimensions except for the concatenation axis must match exactly'')
             else forecast_steps predict SEQ_LEN n_feat k (tl seq @ [yhat]) (preds_scaled @ [yhat])))"

definition multi_step_forecast ::
  "(matrix \<Rightarrow> error + fl list) \<Rightarrow> (matrix \<Rightarrow> error + matrix) \<Rightarrow> nat \<Rightarrow> matrix \<Rightarrow> int
     \<Rightarrow> error + matrix" where
  "multi_step_forecast predict inverse_transform SEQ_LEN last_seq_scaled horizon =
     (case forecast_steps predict SEQ_LEN (width last_seq_scaled) (nat horizon) last_seq_scaled [] of
        Inl e \<Rightarrow> Inl e
      | Inr preds_scaled \<Rightarrow> inverse_transform preds_scaled)"

section \<open>Bounding the forecast\<close>

text \<open>Python's two-argument \<open>max\<close> and \<open>min\<close>: the first argument, unless the
  second is greater (smaller).\<close>

definition py_max2 :: "fl \<Rightarrow> fl \<Rightarrow> fl" where
  "py_max2 a b = (if fl_less a b then b else a)"

definition py_min2 :: "fl \<Rightarrow> fl \<Rightarrow> fl" where
  "py_min2 a b = (if fl_less b a then b else a)"

text \<open>\<open>max(xs)\<close> of a list with first element \<open>x\<close>.\<close>

definition py_max :: "fl \<Rightarrow> fl list \<Rightarrow> fl" where
  "py_max x xs = foldl py_max2 x xs"

definition np_sum :: "fl list \<Rightarrow> fl" where
  "np_sum xs = foldl fl_add (Fin 0) xs"

text \<open>\<open>np.mean\<close>: NaN for the empty list.\<close>

definition np_mean :: "fl list \<Rightarrow> fl" where
  "np_mean xs = (if xs = [] then NaN else fl_div_by (np_sum xs) (real (length xs)))"

text \<open>\<open>np.std\<close>: the root of the mean squared deviation from the mean.\<close>

definition np_std :: "fl list \<Rightarrow> fl" where
  "np_std xs = fl_sqrt (np_mean (map (\<lambda>x. fl_mul (fl_sub x (np_mean xs)) (fl_sub x (np_mean xs))) xs))"

text \<open>\<open>hist_max = max(hist_values) if hist_values and max(hist_values) > 0 else 1.0\<close>.\<close>

definition hist_max :: "fl list \<Rightarrow> fl" where
  "hist_max hist_values =
     (case hist_values of
        [] \<Rightarrow> Fin 1
      | x # xs \<Rightarrow> if fl_less (Fin 0) (py_max x xs) then py_max x xs else Fin 1)"

text \<open>\<open>hist_std = np.std(hist_values) if hist_values else 1.0\<close>.\<close>

definition hist_std :: "fl list \<Rightarrow> fl" where
  "hist_std hist_values = (if hist_values = [] then Fin 1 else np_std hist_values)"

text \<open>The clipping of the sequence path (lines 276 to 281 of \<open>predict_csv\<close>).\<close>

definition clip_max :: "fl list \<Rightarrow> fl" where
  "clip_max hist_values = fl_add (hist_max hist_values) (fl_mul (Fin 2) (hist_std hist_values))"

definition forecast_clipped :: "fl list \<Rightarrow> fl list \<Rightarrow> fl list" where
  "forecast_clipped hist_values forecast_values =
     map (\<lambda>v. py_min2 (py_max2 v (Fin 0)) (clip_max hist_values)) forecast_values"

text \<open>The scaling of the additive path (lines 330 to 343 of \<open>predict_csv\<close>).\<close>

definition scaled_val :: "fl \<Rightarrow> fl \<Rightarrow> fl" where
  "scaled_val hmax val =
     (if fl_less val (Fin 0) then Fin 0
      else if fl_less (fl_mul hmax (Fin 2)) val then fl_mul hmax (Fin 1.5)
      else val)"

definition forecast_scaled :: "fl list \<Rightarrow> fl list \<Rightarrow> fl list" where
  "forecast_scaled hist_values forecast_values =
     map (scaled_val (hist_max hist_values)) forecast_values"

section \<open>The forecast route (\<open>predict_csv\<close>)\<close>

fun bind_error :: "error + 'a \<Rightarrow> ('a \<Rightarrow> error + 'b) \<Rightarrow> error + 'b" where
  "bind_error (Inl e) f = Inl e"
| "bind_error (Inr v) f = f v"

text \<open>A pickled file of additive models, as \<open>joblib.load\<close> finds it: unreadable, not a
  dictionary, or a dictionary from category to an object that is a Prophet model or is
  not (no \<open>make_future_dataframe\<close>).\<close>

datatype 'm pickle = Unreadable string | NotADict | ModelsDict "(string \<times> 'm option) list"

text \<open>
  What the route takes from outside: the CSV reader, \<open>int()\<close> on the form field, the
  date parser, the sorting algorithm, the frequency inference of \<open>pd.infer_freq\<close>, the
  configured \<open>SEQ_LEN\<close>, the scaler and the
  network, the model files by name, and a Prophet model's forecast for a number of
  periods at a frequency (the rows \<open>(ds, yhat)\<close> of \<open>predict(make_future_dataframe(...))\<close>).
\<close>

record ('f, 'm) env =
  pd_read_csv :: "'f \<Rightarrow> error + frame"
  py_int :: "string \<Rightarrow> error + int"
  parse_date :: "cell \<Rightarrow> error + int option"
  np_argsort :: "int list \<Rightarrow> nat list"
  freq_inference :: "cell list \<Rightarrow> string option"
  SEQ_LEN :: nat
  scaler_transform :: "matrix \<Rightarrow> error + matrix"
  model_predict :: "matrix \<Rightarrow> error + fl list"
  scaler_inverse_transform :: "matrix \<Rightarrow> error + matrix"
  model_files :: "string \<Rightarrow> 'm pickle option"
  prophet_predict :: "'m \<Rightarrow> int \<Rightarrow> string \<Rightarrow> error + (int \<times> fl) list"

record 'f request =
  file_field :: "'f option"
  days_field :: "string option"
  category_field :: "string option"

text \<open>The JSON body of a successful response. Dates are kept as timestamps; their
  rendering by \<open>strftime\<close> is not modelled.\<close>

record response =
  hist_dates :: "cell list"
  hist_values :: "cell list"
  forecast_dates :: "int list"
  forecast_values :: "fl list"
  metrics :: "real \<times> real \<times> real"
  granularity :: string
  frequency :: string
  category :: string
  fallback :: bool

datatype reply = Reply response | Failure nat string

fun string_of_nat :: "nat \<Rightarrow> string" where
  "string_of_nat n =
     (if n < 10 then [char_of (48 + n)] else string_of_nat (n div 10) @ [char_of (48 + n mod 10)])"

text \<open>\<open>str(e)\<close> of an exception.\<close>

fun error_message :: "error \<Rightarrow> string" where
  "error_message (ValueError s) = s"
| "error_message (KeyError s) = [CHR 0x27] @ s @ [CHR 0x27]"
| "error_message (TypeError s) = s"
| "error_message (IndexError s) = s"
| "error_message (FileNotFoundError s) = s"
| "error_message (OverflowError s) = s"

text \<open>The float values of a column; arithmetic on a cell that is no float raises.\<close>

fun float_of :: "cell \<Rightarrow> error + fl" where
  "float_of (Flt x) = Inr x"
| "float_of _ = Inl (TypeError ''unsupported operand type'')"

definition floats :: "cell list \<Rightarrow> error + fl list" where
  "floats cs = sequence (map float_of cs)"

text \<open>\<open>df[cols].values\<close> as a float array.\<close>

definition values_matrix :: "frame \<Rightarrow> string list \<Rightarrow> error + matrix" where
  "values_matrix df cols = sequence (map (\<lambda>r. floats (map r cols)) (rows df))"

text \<open>\<open>a[-n:]\<close>: the last \<open>n\<close> rows, and all of them when \<open>n = 0\<close>.\<close>

definition last_rows :: "nat \<Rightarrow> 'a list \<Rightarrow> 'a list" where
  "last_rows n xs = (if n = 0 then xs else drop (length xs - n) xs)"

fun index_of :: "'a \<Rightarrow> 'a list \<Rightarrow> nat" where
  "index_of x [] = 0"
| "index_of x (y # ys) = (if x = y then 0 else Suc (index_of x ys))"

text \<open>\<open>preds[:, i]\<close>.\<close>

definition take_column :: "nat \<Rightarrow> matrix \<Rightarrow> error + fl list" where
  "take_column i m =
     (if list_all (\<lambda>r. i < length r) m then Inr (map (\<lambda>r. r ! i) m)
      else Inl (IndexError ''index is out of bounds for axis 1''))"

text \<open>\<open>df[DATE_COL].max()\<close>: the latest timestamp, \<open>NaT\<close> when there is none.\<close>

fun stamps :: "cell list \<Rightarrow> int list" where
  "stamps [] = []"
| "stamps (Stamp t # cs) = t # stamps cs"
| "stamps (_ # cs) = stamps cs"

definition date_max :: "cell list \<Rightarrow> cell" where
  "date_max cs = (case stamps cs of [] \<Rightarrow> NaT | t # ts \<Rightarrow> Stamp (fold max ts t))"

definition hour_ns :: int where
  "hour_ns = 3600000000000"

definition day_ns :: int where
  "day_ns = 86400000000000"

text \<open>
  \<open>pd.date_range(start, periods, freq)\<close> for a fixed step. Timestamps are 64-bit
  counts of nanoseconds: the range is refused when \<open>start + periods * step\<close> passes
  the largest of them.
\<close>

definition i8max :: int where
  "i8max = 9223372036854775807"

definition date_range :: "cell \<Rightarrow> int \<Rightarrow> int \<Rightarrow> error + int list" where
  "date_range start periods step =
     (case start of
        Stamp t \<Rightarrow>
          if periods < 0 then Inl (ValueError ''Number of periods must be non-negative'')
          else if i8max < t + periods * step
          then Inl (ValueError ''Cannot generate range: out of bounds nanosecond timestamp'')
          else Inr (map (\<lambda>k. t + int k * step) [0..<nat periods])
      | _ \<Rightarrow> Inl (ValueError ''Neither start nor end can be NaT''))"

text \<open>\<open>_load_prophet_models_dict\<close> and \<open>_get_prophet_model\<close>.\<close>

definition model_map :: "(string \<times> string) list" where
  "model_map = [(''D'', ''daily_prophet.pkl''), (''W'', ''weekly_prophet.pkl''), (''M'', ''monthly_prophet.pkl'')]"

definition load_prophet_models_dict ::
  "('f, 'm) env \<Rightarrow> string \<Rightarrow> error + (string \<times> 'm option) list" where
  "load_prophet_models_dict env freq =
     (case map_of model_map freq of
        None \<Rightarrow> Inl (ValueError (''No Prophet model available for frequency '' @ freq))
      | Some pkl_path \<Rightarrow>
          (case model_files env pkl_path of
             None \<Rightarrow> Inl (FileNotFoundError (''Prophet model file not found: '' @ pkl_path))
           | Some (Unreadable msg) \<Rightarrow>
               Inl (ValueError (''Failed to load Prophet models from '' @ pkl_path @ '': '' @ msg))
           | Some NotADict \<Rightarrow>
               Inl (ValueError (''Failed to load Prophet models from '' @ pkl_path
                                 @ '': Expected dictionary of models''))
           | Some (ModelsDict models_dict) \<Rightarrow>
               (case filter (\<lambda>(product, prophet_model). prophet_model = None) models_dict of
                  [] \<Rightarrow> Inr models_dict
                | (product, _) # _ \<Rightarrow>
                    Inl (ValueError (''Failed to load Prophet models from '' @ pkl_path
                           @ '': Model for '' @ product @ '' is not a valid Prophet model'')))))"

definition get_prophet_model :: "('f, 'm) env \<Rightarrow> string \<Rightarrow> string \<Rightarrow> error + 'm" where
  "get_prophet_model env freq category_v =
     bind_error (load_prophet_models_dict env freq) (\<lambda>models_dict.
       (case map_of models_dict category_v of
          Some (Some prophet_model) \<Rightarrow> Inr prophet_model
        | _ \<Rightarrow> Inl (ValueError (''No model found for category '' @ category_v))))"

text \<open>\<open>forecast.tail(n)\<close>.\<close>

definition tail :: "int \<Rightarrow> 'a list \<Rightarrow> 'a list" where
  "tail n xs = (if n < 0 then drop (nat (- n)) xs else drop (length xs - nat n) xs)"

text \<open>\<open>if not category or category not in PRODUCT_COLS: category = PRODUCT_COLS[0]\<close>.\<close>

definition default_category :: "string option \<Rightarrow> string" where
  "default_category c =
     (case c of
        None \<Rightarrow> PRODUCT_COLS ! 0
      | Some s \<Rightarrow> if s = [] \<or> s \<notin> set PRODUCT_COLS then PRODUCT_COLS ! 0 else s)"

text \<open>\<open>days = int(request.form.get("days", 7))\<close>.\<close>

definition requested_days :: "('f, 'm) env \<Rightarrow> 'f request \<Rightarrow> error + int" where
  "requested_days env req = (case days_field req of None \<Rightarrow> Inr 7 | Some s \<Rightarrow> py_int env s)"

text \<open>The branch \<open>freq == "H"\<close>.\<close>

definition lstm_path :: "('f, 'm) env \<Rightarrow> frame \<Rightarrow> int \<Rightarrow> string \<Rightarrow> string \<Rightarrow> error + reply" where
  "lstm_path env df days category_v freq =
     (let horizon = days in
      if length (rows df) < SEQ_LEN env
      then Inr (Failure 400 (''Not enough history. Need at least '' @ string_of_nat (SEQ_LEN env)
                               @ '' rows, got '' @ string_of_nat (length (rows df))))
      else
        bind_error (values_matrix df PRODUCT_COLS) (\<lambda>vals.
        bind_error (scaler_transform env vals) (\<lambda>scaled.
        bind_error (multi_step_forecast (model_predict env) (scaler_inverse_transform env)
                      (SEQ_LEN env) (last_rows (SEQ_LEN env) scaled) horizon) (\<lambda>preds.
        bind_error (take_column (index_of category_v PRODUCT_COLS) preds) (\<lambda>category_preds.
        bind_error (column df DATE_COL) (\<lambda>dates.
        bind_error (date_range (date_max dates) (horizon + 1) hour_ns) (\<lambda>idx.
        bind_error (column df category_v) (\<lambda>hist.
        bind_error (floats hist) (\<lambda>hist_f.
          Inr (Reply \<lparr>hist_dates = dates, hist_values = hist,
                      forecast_dates = tl idx,
                      forecast_values = forecast_clipped hist_f category_preds,
                      metrics = (10, 15, 8), granularity = ''hours'',
                      frequency = freq, category = category_v, fallback = False\<rparr>))))))))))"

text \<open>The body of the inner \<open>try\<close> of the other branch. The two \<open>print\<close> calls that
  format \<open>min\<close> and \<open>max\<close> raise on an empty list.\<close>

definition freq_map :: "(string \<times> string) list" where
  "freq_map = [(''D'', ''D''), (''W'', ''W''), (''M'', ''ME'')]"

definition granularity_map :: "(string \<times> string) list" where
  "granularity_map = [(''D'', ''days''), (''W'', ''weeks''), (''M'', ''months'')]"

definition prophet_try :: "('f, 'm) env \<Rightarrow> frame \<Rightarrow> int \<Rightarrow> string \<Rightarrow> string \<Rightarrow> error + response" where
  "prophet_try env df days category_v freq =
     bind_error (get_prophet_model env freq category_v) (\<lambda>prophet_model.
     bind_error (column df category_v) (\<lambda>hist.
     bind_error (column df DATE_COL) (\<lambda>dates.
     bind_error (floats hist) (\<lambda>hist_f.
     if hist_f = [] then Inl (ValueError ''min() arg is an empty sequence'')
     else
       (case map_of freq_map freq of
          None \<Rightarrow> Inl (KeyError freq)
        | Some f \<Rightarrow>
            bind_error (prophet_predict env prophet_model days f) (\<lambda>forecast.
              let future_only = tail days forecast;
                  fvalues = map snd future_only;
                  fdates = map fst future_only
              in if fvalues = [] then Inl (ValueError ''min() arg is an empty sequence'')
                 else Inr \<lparr>hist_dates = dates, hist_values = hist,
                           forecast_dates = fdates,
                           forecast_values = forecast_scaled hist_f fvalues,
                           metrics = (15, 20, 12),
                           granularity = (case map_of granularity_map freq of
                                            Some g \<Rightarrow> g | None \<Rightarrow> ''days''),
                           frequency = freq, category = category_v, fallback = False\<rparr>))))))"

text \<open>The handler of the inner \<open>except\<close>: the trend forecast.\<close>

definition recent_avg :: "fl list \<Rightarrow> fl" where
  "recent_avg hist_f =
     (if 30 \<le> length hist_f then np_mean (drop (length hist_f - 30) hist_f) else np_mean hist_f)"

definition fallback_forecast :: "frame \<Rightarrow> int \<Rightarrow> string \<Rightarrow> string \<Rightarrow> error + reply" where
  "fallback_forecast df days category_v freq =
     bind_error (column df category_v) (\<lambda>hist.
     bind_error (column df DATE_COL) (\<lambda>dates.
     bind_error (floats hist) (\<lambda>hist_f.
     bind_error (date_range (date_max dates) (days + 1) day_ns) (\<lambda>future_dates.
       Inr (Reply \<lparr>hist_dates = dates, hist_values = hist,
                   forecast_dates = tl future_dates,
                   forecast_values = replicate (nat days) (fl_mul (recent_avg hist_f) (Fin 0.9)),
                   metrics = (20, 25, 15), granularity = ''days'',
                   frequency = freq, category = category_v, fallback = True\<rparr>)))))"

definition prophet_path :: "('f, 'm) env \<Rightarrow> frame \<Rightarrow> int \<Rightarrow> string \<Rightarrow> string \<Rightarrow> error + reply" where
  "prophet_path env df days category_v freq =
     (case prophet_try env df days category_v freq of
        Inr resp \<Rightarrow> Inr (Reply resp)
      | Inl prophet_error \<Rightarrow> fallback_forecast df days category_v freq)"

text \<open>The body of the outer \<open>try\<close>, and the route.\<close>

definition predict_csv_body :: "('f, 'm) env \<Rightarrow> 'f \<Rightarrow> 'f request \<Rightarrow> error + reply" where
  "predict_csv_body env f req =
     bind_error (requested_days env req) (\<lambda>days.
     bind_error (pd_read_csv env f) (\<lambda>df0.
     bind_error (prep_dataframe (np_argsort env) (parse_date env) df0) (\<lambda>df.
     bind_error (detect_frequency (np_argsort env) (freq_inference env) df) (\<lambda>freq.
       let category_v = default_category (category_field req) in
       if freq = ''H'' then lstm_path env df days category_v freq
       else prophet_path env df days category_v freq))))"

definition predict_csv :: "('f, 'm) env \<Rightarrow> 'f request \<Rightarrow> reply" where
  "predict_csv env req =
     (case file_field req of
        None \<Rightarrow> Failure 400 (''Upload a CSV file in '' @ [CHR 0x27] @ ''file'' @ [CHR 0x27] @ '' field (form-data).'')
      | Some f \<Rightarrow>
          (case predict_csv_body env f req of
             Inl e \<Rightarrow> Failure 500 (''Prediction failed: '' @ error_message e)
           | Inr r \<Rightarrow> r))"

text \<open>What a reply shows: the forecast block, the fallback flag and the category of a
  successful response, nothing for an error response.\<close>

definition forecast_block :: "reply \<Rightarrow> (int list \<times> fl list) option" where
  "forecast_block r =
     (case r of Reply resp \<Rightarrow> Some (forecast_dates resp, forecast_values resp) | Failure _ _ \<Rightarrow> None)"

definition fallback_flag :: "reply \<Rightarrow> bool option" where
  "fallback_flag r = (case r of Reply resp \<Rightarrow> Some (fallback resp) | Failure _ _ \<Rightarrow> None)"

definition reply_category :: "reply \<Rightarrow> string option" where
  "reply_category r = (case r of Reply resp \<Rightarrow> Some (category resp) | Failure _ _ \<Rightarrow> None)"

text \<open>The number of forecast values of an answer.\<close>

definition forecast_count :: "reply \<Rightarrow> nat option" where
  "forecast_count r = (case r of Reply resp \<Rightarrow> Some (length (forecast_values resp)) | Failure _ _ \<Rightarrow> None)"

text \<open>
  The shape of a cleaned frame: the date column and the eight product columns, rows with
  a timestamp first and in ascending order, rows without one last, no missing product
  value, and nothing under any other label.
\<close>

definition date_sorted :: "string \<Rightarrow> row list \<Rightarrow> bool" where
  "date_sorted c rs =
     (\<exists>A B. rs = A @ B \<and> (\<forall>r \<in> set A. is_stamp (r c)) \<and> sorted (map (\<lambda>r. stamp_val (r c)) A)
            \<and> (\<forall>r \<in> set B. \<not> is_stamp (r c)))"

definition clean_frame :: "frame \<Rightarrow> bool" where
  "clean_frame df =
     (columns df = DATE_COL # PRODUCT_COLS \<and> date_sorted DATE_COL (rows df)
      \<and> (\<forall>r \<in> set (rows df).
            is_date (r DATE_COL) \<and> (\<forall>c \<in> set PRODUCT_COLS. \<not> isna (r c))
            \<and> (\<forall>k. k \<notin> set (DATE_COL # PRODUCT_COLS) \<longrightarrow> r k = Flt NaN)))"

text \<open>One column of the cleaned frame, for reading off results.\<close>

definition cleaned_column ::
  "(int list \<Rightarrow> nat list) \<Rightarrow> (cell \<Rightarrow> error + int option) \<Rightarrow> frame \<Rightarrow> string
     \<Rightarrow> error + cell list" where
  "cleaned_column argsort parse df c =
     (case prep_dataframe argsort parse df of Inl e \<Rightarrow> Inl e | Inr out \<Rightarrow> column out c)"

text \<open>The same column after cleaning the cleaned frame once more.\<close>

definition recleaned_column ::
  "(int list \<Rightarrow> nat list) \<Rightarrow> (cell \<Rightarrow> error + int option) \<Rightarrow> frame \<Rightarrow> string
     \<Rightarrow> error + cell list" where
  "recleaned_column argsort parse df c =
     (case prep_dataframe argsort parse df of
        Inl e \<Rightarrow> Inl e
      | Inr out \<Rightarrow> cleaned_column argsort parse out c)"

section \<open>Validation of a data set (\<open>DataProcessor.validate_data_format\<close>)\<close>

text \<open>
  The data of a request is a JSON value as Python reads it; a dictionary is the list of
  its pairs, looked up with \<open>map_of\<close>.
\<close>

datatype json =
    JNull
  | JBool bool
  | JInt int
  | JFloat fl
  | JStr string
  | JList "json list"
  | JDict "(string \<times> json) list"

definition required_columns :: "string list" where
  "required_columns = [''date'', ''sales'', ''product'', ''region'']"

definition numeric_fields :: "string list" where
  "numeric_fields = [''sales'', ''volume'', ''price'', ''units'', ''revenue'']"

text \<open>The truth value of \<open>data\<close> in \<open>if not data\<close>.\<close>

fun truthy :: "json \<Rightarrow> bool" where
  "truthy JNull = False"
| "truthy (JBool b) = b"
| "truthy (JInt n) = (n \<noteq> 0)"
| "truthy (JFloat x) = (x \<noteq> Fin 0)"
| "truthy (JStr s) = (s \<noteq> [])"
| "truthy (JList xs) = (xs \<noteq> [])"
| "truthy (JDict d) = (d \<noteq> [])"

text \<open>\<open>str(i)\<close> for the index of a record.\<close>

fun str_nat :: "nat \<Rightarrow> string" where
  "str_nat n = (if n < 10 then [char_of (48 + n)]
                else str_nat (n div 10) @ [char_of (48 + n mod 10)])"

text \<open>The four messages of a record.\<close>

definition not_dict_message :: "nat \<Rightarrow> string" where
  "not_dict_message i = ''Record '' @ str_nat i @ '' is not a dictionary''"

definition missing_message :: "nat \<Rightarrow> string \<Rightarrow> string" where
  "missing_message i col = ''Record '' @ str_nat i @ '' missing required column: '' @ col"

definition date_message :: "nat \<Rightarrow> string \<Rightarrow> string" where
  "date_message i v = ''Record '' @ str_nat i @ '' has invalid date format: '' @ v"

definition numeric_message :: "nat \<Rightarrow> string \<Rightarrow> string \<Rightarrow> string" where
  "numeric_message i field v = ''Record '' @ str_nat i @ '' has non-numeric '' @ field @ '': '' @ v"

text \<open>\<open>except (ValueError, TypeError)\<close>.\<close>

fun caught :: "error \<Rightarrow> bool" where
  "caught (ValueError s) = True"
| "caught (TypeError s) = True"
| "caught e = False"

text \<open>
  The checks of one dictionary, each appending to \<open>errors\<close>: the required columns, the
  date, which any exception of \<open>pd.to_datetime\<close> makes invalid, and the numeric fields,
  where an exception of \<open>float\<close> that is not caught leaves the function. \<open>pd.to_datetime\<close>,
  \<open>float\<close> and the formatting of a value in a message are parameters.
\<close>

definition check_required :: "nat \<Rightarrow> (string \<times> json) list \<Rightarrow> string list \<Rightarrow> string list" where
  "check_required i record errors =
     errors @ map (missing_message i) (filter (\<lambda>col. map_of record col = None) required_columns)"

definition check_date :: "(json \<Rightarrow> error + cell) \<Rightarrow> (json \<Rightarrow> string) \<Rightarrow> nat
    \<Rightarrow> (string \<times> json) list \<Rightarrow> string list \<Rightarrow> string list" where
  "check_date pd_to_datetime py_str i record errors =
     (case map_of record ''date'' of
        None \<Rightarrow> errors
      | Some v \<Rightarrow> (case pd_to_datetime v of
                    Inr t \<Rightarrow> errors
                  | Inl e \<Rightarrow> errors @ [date_message i (py_str v)]))"

fun check_numeric :: "(json \<Rightarrow> error + fl) \<Rightarrow> (json \<Rightarrow> string) \<Rightarrow> nat
    \<Rightarrow> (string \<times> json) list \<Rightarrow> string list \<Rightarrow> string list \<Rightarrow> error + string list" where
  "check_numeric py_float py_str i record [] errors = Inr errors"
| "check_numeric py_float py_str i record (field # rest_fields) errors =
     (case map_of record field of
        None \<Rightarrow> check_numeric py_float py_str i record rest_fields errors
      | Some v \<Rightarrow>
          (case py_float v of
             Inr x \<Rightarrow> check_numeric py_float py_str i record rest_fields errors
           | Inl e \<Rightarrow>
               if caught e
               then check_numeric py_float py_str i record rest_fields
                      (errors @ [numeric_message i field (py_str v)])
               else Inl e))"

text \<open>The loop over \<open>enumerate(data[:sample_size])\<close>.\<close>

fun check_records :: "(json \<Rightarrow> error + cell) \<Rightarrow> (json \<Rightarrow> error + fl) \<Rightarrow> (json \<Rightarrow> string)
    \<Rightarrow> (nat \<times> json) list \<Rightarrow> string list \<Rightarrow> error + string list" where
  "check_records pd_to_datetime py_float py_str [] errors = Inr errors"
| "check_records pd_to_datetime py_float py_str ((i, record) # rest) errors =
     (case record of
        JDict d \<Rightarrow>
          bind_error (check_numeric py_float py_str i d numeric_fields
                        (check_date pd_to_datetime py_str i d (check_required i d errors)))
            (check_records pd_to_datetime py_float py_str rest)
      | _ \<Rightarrow> check_records pd_to_datetime py_float py_str rest (errors @ [not_dict_message i]))"

definition validate_data_format :: "(json \<Rightarrow> error + cell) \<Rightarrow> (json \<Rightarrow> error + fl)
    \<Rightarrow> (json \<Rightarrow> string) \<Rightarrow> json \<Rightarrow> error + bool \<times> string list" where
  "validate_data_format pd_to_datetime py_float py_str data =
     (if \<not> truthy data then Inr (False, [''Data is empty''])
      else case data of
             JList records \<Rightarrow>
               (let sample_size = min 5 (length records)
                in bind_error (check_records pd_to_datetime py_float py_str
                                 (enumerate 0 (take sample_size records)) [])
                     (\<lambda>errors. Inr (errors = [], errors)))
           | _ \<Rightarrow> Inr (False, [''Data must be a list of dictionaries'']))"

text \<open>
  The problems of one sampled record, as the checks find them: the required columns it
  lacks, its date when that does not parse, each numeric field that does not convert.
\<close>

definition lacks :: "string \<Rightarrow> json \<Rightarrow> bool" where
  "lacks col record = (case record of JDict d \<Rightarrow> map_of d col = None | _ \<Rightarrow> False)"

definition numeric_problems :: "(json \<Rightarrow> error + fl) \<Rightarrow> (json \<Rightarrow> string) \<Rightarrow> nat
    \<Rightarrow> (string \<times> json) list \<Rightarrow> string list" where
  "numeric_problems py_float py_str i d =
     concat (map (\<lambda>field. case map_of d field of
                             None \<Rightarrow> []
                           | Some v \<Rightarrow> if isl (py_float v) then [numeric_message i field (py_str v)]
                                       else [])
                 numeric_fields)"

definition record_problems :: "(json \<Rightarrow> error + cell) \<Rightarrow> (json \<Rightarrow> error + fl) \<Rightarrow> (json \<Rightarrow> string)
    \<Rightarrow> nat \<Rightarrow> json \<Rightarrow> string list" where
  "record_problems pd_to_datetime py_float py_str i record =
     (case record of
        JDict d \<Rightarrow>
          map (missing_message i) (filter (\<lambda>col. lacks col record) required_columns)
          @ (case map_of d ''date'' of
               None \<Rightarrow> []
             | Some v \<Rightarrow> if isl (pd_to_datetime v) then [date_message i (py_str v)] else [])
          @ numeric_problems py_float py_str i d
      | _ \<Rightarrow> [not_dict_message i])"

text \<open>The messages that report the column \<open>col\<close> as missing from one of the first five
  records.\<close>

definition reports_missing :: "string \<Rightarrow> string \<Rightarrow> bool" where
  "reports_missing col m = (m \<in> set (map (\<lambda>i. missing_message i col) [0..<5]))"

section \<open>Sample inputs\<close>

text \<open>A frame with the date column and the eight product columns, from the date cell
  and the eight values of each row.\<close>

definition sales_row :: "cell \<Rightarrow> fl list \<Rightarrow> row" where
  "sales_row d vs =
     (\<lambda>k. if k = DATE_COL then d
          else (case map_of (zip PRODUCT_COLS vs) k of Some v \<Rightarrow> Flt v | None \<Rightarrow> Flt NaN))"

definition sales_frame :: "(cell \<times> fl list) list \<Rightarrow> frame" where
  "sales_frame xs =
     \<lparr>columns = DATE_COL # PRODUCT_COLS, rows = map (\<lambda>(d, vs). sales_row d vs) xs\<rparr>"

text \<open>A date parser that knows three texts of 2 January 2014 (08:00, 09:00 and 11:00 UTC)
  and raises on any other cell.\<close>

definition parse_2014 :: "cell \<Rightarrow> error + int option" where
  "parse_2014 c =
     (if c = Txt ''2014-01-02 08:00:00'' then Inr (Some 1388649600000000000)
      else if c = Txt ''2014-01-02 09:00:00'' then Inr (Some 1388653200000000000)
      else if c = Txt ''2014-01-02 11:00:00'' then Inr (Some 1388660400000000000)
      else Inl (ValueError ''Unknown datetime string format''))"


text \<open>
  Two sorting algorithms that meet \<open>argsort_ok\<close>: the stable one, which is what numpy
  does on short arrays, and one that puts equal keys in the reverse of their input order.
\<close>

definition stable_argsort :: "int list \<Rightarrow> nat list" where
  "stable_argsort ks = sort_key (\<lambda>i. ks ! i) [0..<length ks]"

definition reversing_argsort :: "int list \<Rightarrow> nat list" where
  "reversing_argsort ks = rev (sort_key (\<lambda>i. - (ks ! i)) [0..<length ks])"

text \<open>Three records at 08:00, 09:00 and 11:00: gaps of one and two hours.\<close>

definition irregular_frame :: frame where
  "irregular_frame = sales_frame
     [(Stamp 1388649600000000000, [Fin 1, Fin 1, Fin 1, Fin 1, Fin 1, Fin 1, Fin 1, Fin 1]),
      (Stamp 1388653200000000000, [Fin 2, Fin 2, Fin 2, Fin 2, Fin 2, Fin 2, Fin 2, Fin 2]),
      (Stamp 1388660400000000000, [Fin 3, Fin 3, Fin 3, Fin 3, Fin 3, Fin 3, Fin 3, Fin 3])]"




text \<open>A predictor that repeats the last row of its window, and a scaler that changes
  nothing.\<close>

definition persistence_model :: "matrix \<Rightarrow> error + fl list" where
  "persistence_model w = Inr (last w)"

definition identity_scaler :: "matrix \<Rightarrow> error + matrix" where
  "identity_scaler m = Inr m"

text \<open>\<open>n\<close> records from \<open>start\<close>, one every \<open>step\<close>; record \<open>i\<close> has the value \<open>i\<close>
  in every product column.\<close>

definition series_frame :: "int \<Rightarrow> int \<Rightarrow> nat \<Rightarrow> frame" where
  "series_frame start step n =
     sales_frame (map (\<lambda>i. (Stamp (start + int i * step), replicate 8 (Fin (real i)))) [0..<n])"

text \<open>\<open>int()\<close> on a string of decimal digits.\<close>

definition is_digit :: "char \<Rightarrow> bool" where
  "is_digit c = (let n = (of_char c :: nat) in 48 \<le> n \<and> n \<le> 57)"

definition decimal_int :: "string \<Rightarrow> error + int" where
  "decimal_int s =
     (if s \<noteq> [] \<and> list_all is_digit s
      then Inr (foldl (\<lambda>a c. 10 * a + (int (of_char c) - 48)) 0 s)
      else Inl (ValueError ''invalid literal for int() with base 10''))"

text \<open>A frequency inference for evenly spaced hourly or daily dates.\<close>

definition regular_inference :: "cell list \<Rightarrow> string option" where
  "regular_inference dates =
     (if list_all (\<lambda>d. d = hour_ns) (diffs dates) then Some ''h''
      else if list_all (\<lambda>d. d = day_ns) (diffs dates) then Some ''D''
      else None)"

text \<open>A model store with one file, the daily one, holding a model for M01AE only; and a
  model that raises when asked to forecast.\<close>

definition daily_models :: "string \<Rightarrow> unit pickle option" where
  "daily_models name =
     (if name = ''daily_prophet.pkl'' then Some (ModelsDict [(''M01AE'', Some ())]) else None)"

definition unfitted :: "unit \<Rightarrow> int \<Rightarrow> string \<Rightarrow> error + (int \<times> fl) list" where
  "unfitted m periods f = Inl (ValueError ''Model has not been fit'')"

text \<open>A service with a window of 168 rows.\<close>

definition sample_env :: "(frame, unit) env" where
  "sample_env =
     \<lparr>pd_read_csv = Inr, py_int = decimal_int, parse_date = parse_2014,
      np_argsort = stable_argsort, freq_inference = regular_inference, SEQ_LEN = 168,
      scaler_transform = identity_scaler, model_predict = persistence_model,
      scaler_inverse_transform = identity_scaler,
      model_files = daily_models, prophet_predict = unfitted\<rparr>"

text \<open>168 hourly records with \<open>days = 1\<close>; 40 daily records with \<open>days = 5\<close>, for a
  known category and for one that is no product column, and with \<open>days = 100000\<close>,
  which leads past the year 2262.\<close>

definition hourly_request :: "frame request" where
  "hourly_request =
     \<lparr>file_field = Some (series_frame 1388649600000000000 hour_ns 168),
      days_field = Some ''1'', category_field = Some ''M01AB''\<rparr>"

definition daily_request :: "frame request" where
  "daily_request =
     \<lparr>file_field = Some (series_frame 1388649600000000000 day_ns 40),
      days_field = Some ''5'', category_field = Some ''M01AB''\<rparr>"

definition unknown_category_request :: "frame request" where
  "unknown_category_request =
     \<lparr>file_field = Some (series_frame 1388649600000000000 day_ns 40),
      days_field = Some ''5'', category_field = Some ''XYZ''\<rparr>"

definition far_request :: "frame request" where
  "far_request =
     \<lparr>file_field = Some (series_frame 1388649600000000000 day_ns 40),
      days_field = Some ''100000'', category_field = Some ''M01AB''\<rparr>"

text \<open>The status of a reply: 200 for a response, the code of a failure.\<close>

definition status_code :: "reply \<Rightarrow> nat" where
  "status_code r = (case r of Reply _ \<Rightarrow> 200 | Failure code _ \<Rightarrow> code)"

text \<open>20 records with one and the same timestamp, record \<open>i\<close> with the value \<open>i\<close>.\<close>

definition tied_frame :: frame where
  "tied_frame = series_frame 1388649600000000000 0 20"

text \<open>
  For the validator: a date parser, a conversion to float (of integers, without the
  rounding, of floats, booleans and strings of digits) and a formatting of strings, with
  a record that lacks the column \<open>region\<close> and one that also has a date and a number
  that do not parse.
\<close>

definition json_to_datetime :: "json \<Rightarrow> error + cell" where
  "json_to_datetime v =
     (case v of
        JStr s \<Rightarrow> (case parse_2014 (Txt s) of Inl e \<Rightarrow> Inl e
                   | Inr None \<Rightarrow> Inr NaT | Inr (Some t) \<Rightarrow> Inr (Stamp t))
      | JInt n \<Rightarrow> Inr (Stamp n)
      | _ \<Rightarrow> Inl (TypeError ''cannot convert input to Timestamp''))"

definition json_float :: "json \<Rightarrow> error + fl" where
  "json_float v =
     (case v of
        JInt n \<Rightarrow> if \<bar>n\<bar> < 2 ^ 1024 - 2 ^ 970 then Inr (Fin (of_int n))
                  else Inl (OverflowError ''int too large to convert to float'')
      | JFloat x \<Rightarrow> Inr x
      | JBool b \<Rightarrow> Inr (Fin (if b then 1 else 0))
      | JStr s \<Rightarrow> (case decimal_int s of Inr n \<Rightarrow> Inr (Fin (of_int n))
                   | Inl e \<Rightarrow> Inl (ValueError ''could not convert string to float''))
      | _ \<Rightarrow> Inl (TypeError ''float() argument must be a string or a real number''))"

definition json_str :: "json \<Rightarrow> string" where
  "json_str v = (case v of JStr s \<Rightarrow> s | JNull \<Rightarrow> ''None'' | _ \<Rightarrow> ''?'')"

definition sale :: "json" where
  "sale = JDict [(''date'', JStr ''2014-01-02 08:00:00''), (''sales'', JInt 7),
                 (''product'', JStr ''M01AB'')]"

definition bad_sale :: "json" where
  "bad_sale = JDict [(''date'', JStr ''yesterday''), (''sales'', JStr ''many''),
                     (''product'', JStr ''M01AB'')]"

section \<open>Properties\<close>

subsection \<open>Sorting and cleaning\<close>


lemma date_not_product: "DATE_COL \<notin> set PRODUCT_COLS"
  by (simp add: DATE_COL_def PRODUCT_COLS_def)

lemma product_cols_nonempty: "PRODUCT_COLS \<noteq> []"
  by (simp add: PRODUCT_COLS_def)


lemma argsort_set: "argsort_ok a \<Longrightarrow> set (a ks) = {0..<length ks}"
proof -
  assume "argsort_ok a"
  then have "mset (a ks) = mset [0..<length ks]" unfolding argsort_ok_def by blast
  then have "set (a ks) = set [0..<length ks]" by (rule mset_eq_setD)
  then show ?thesis by simp
qed

lemma argsort_mset:
  assumes "argsort_ok a"
  shows "mset (map (\<lambda>i. xs ! i) (a (map k xs))) = mset xs"
proof -
  have "mset (a (map k xs)) = mset [0..<length xs]"
    using assms unfolding argsort_ok_def by (metis length_map)
  then have "mset (map (\<lambda>i. xs ! i) (a (map k xs))) = mset (map (\<lambda>i. xs ! i) [0..<length xs])"
    by (metis mset_map)
  then show ?thesis by (simp add: map_nth)
qed

lemma argsort_keys:
  assumes "argsort_ok a"
  shows "map k (map (\<lambda>i. xs ! i) (a (map k xs))) = map (\<lambda>i. map k xs ! i) (a (map k xs))"
proof -
  have "\<forall>i \<in> set (a (map k xs)). i < length xs"
    using argsort_set[OF assms, of "map k xs"] by simp
  then show ?thesis by simp
qed

lemma argsort_sorted:
  assumes "argsort_ok a"
  shows "sorted (map k (map (\<lambda>i. xs ! i) (a (map k xs))))"
  unfolding argsort_keys[OF assms] using assms unfolding argsort_ok_def by blast

lemma argsort_sort:
  assumes "argsort_ok a"
  shows "map k (map (\<lambda>i. xs ! i) (a (map k xs))) = sort (map k xs)"
proof -
  have "mset (map k (map (\<lambda>i. xs ! i) (a (map k xs)))) = mset (map k xs)"
    using argsort_mset[OF assms, of xs k] by (metis mset_map)
  then show ?thesis using argsort_sorted[OF assms, of k xs]
    by (metis properties_for_sort)
qed

lemma argsort_identity:
  assumes "argsort_ok a" "sorted ks" "distinct ks"
  shows "a ks = [0..<length ks]"
proof -
  let ?p = "a ks"
  have len: "length ?p = length ks"
    using assms(1) unfolding argsort_ok_def by (metis size_mset length_upt diff_zero)
  have s: "set ?p = {0..<length ks}" using argsort_set[OF assms(1)] .
  have "map (\<lambda>i. ks ! i) ?p = sort (map (\<lambda>x. x) ks)"
    using argsort_sort[OF assms(1), of "\<lambda>x. x" ks] by simp
  then have e: "map (\<lambda>i. ks ! i) ?p = ks" using assms(2) by (simp add: sorted_sort_id)
  show ?thesis
  proof (rule nth_equalityI)
    show "length ?p = length [0..<length ks]" using len by simp
    fix i assume i: "i < length ?p"
    then have "?p ! i \<in> set ?p" by simp
    then have b: "?p ! i < length ks" using s by simp
    have "ks ! (?p ! i) = ks ! i" using e i by (metis nth_map)
    then have "?p ! i = i" using assms(3) b i len by (simp add: nth_eq_iff_index_eq)
    then show "?p ! i = [0..<length ks] ! i" using i len by simp
  qed
qed

lemma stable_argsort_ok: "argsort_ok stable_argsort"
  unfolding argsort_ok_def stable_argsort_def by simp

lemma reversing_argsort_ok: "argsort_ok reversing_argsort"
proof -
  have "sorted (map (\<lambda>i. ks ! i) (rev (sort_key (\<lambda>i. - (ks ! i)) [0..<length ks])))" for ks :: "int list"
  proof -
    have "sorted (map (\<lambda>i. - (ks ! i)) (sort_key (\<lambda>i. - (ks ! i)) [0..<length ks]))"
      by (rule sorted_sort_key)
    then have "sorted (map uminus (map (\<lambda>i. ks ! i) (sort_key (\<lambda>i. - (ks ! i)) [0..<length ks])))"
      by (simp add: comp_def)
    then have "sorted (rev (map (\<lambda>i. ks ! i) (sort_key (\<lambda>i. - (ks ! i)) [0..<length ks])))"
      by (simp add: sorted_wrt_rev sorted_wrt_map)
    then show ?thesis by (simp add: rev_map)
  qed
  then show ?thesis unfolding argsort_ok_def reversing_argsort_def by simp
qed




lemma resolve_has_date:
  "resolve_date_col df = Inr df1 \<Longrightarrow> DATE_COL \<in> set (columns df1)"
proof -
  assume a: "resolve_date_col df = Inr df1"
  show ?thesis
  proof (cases "DATE_COL \<in> set (columns df)")
    case True
    then show ?thesis using a by (simp add: resolve_date_col_def)
  next
    case False
    then obtain cand rest where c: "filter (\<lambda>c. lower (strip c) = lower DATE_COL) (columns df) = cand # rest"
      using a by (auto simp: resolve_date_col_def split: list.splits)
    then have "cand \<in> set (columns df)"
      by (metis filter_is_subset list.set_intros(1) subsetD)
    moreover have "df1 = rename_col cand DATE_COL df"
      using a False c by (simp add: resolve_date_col_def)
    ultimately show ?thesis by (force simp: rename_col_def)
  qed
qed

lemma to_datetime_is_date: "to_datetime parse c = Inr v \<Longrightarrow> is_date v"
  by (induction parse c rule: to_datetime.induct)
     (auto simp: is_date_def split: sum.splits option.splits)

lemma to_datetime_date_id: "is_date c \<Longrightarrow> to_datetime parse c = Inr c"
  by (cases c) (auto simp: is_date_def)

lemma sequence_Inr:
  "sequence xs = Inr vs \<Longrightarrow> list_all2 (\<lambda>x v. x = Inr v) xs vs"
  by (induction xs arbitrary: vs rule: sequence.induct) (auto split: sum.splits)

lemma sequence_map_id: "(\<forall>x \<in> set xs. f x = Inr x) \<Longrightarrow> sequence (map f xs) = Inr xs"
  by (induction xs) auto

lemma to_datetime_col_dates:
  assumes "to_datetime_col parse c df = Inr df2"
  shows "columns df2 = columns df \<and> (\<forall>r \<in> set (rows df2). is_date (r c))"
proof -
  obtain parsed where p: "sequence (map (to_datetime parse) (map (\<lambda>r. r c) (rows df))) = Inr parsed"
    and d: "df2 = set_column c parsed df"
    using assms by (auto simp: to_datetime_col_def column_def split: if_splits sum.splits)
  have l2: "list_all2 (\<lambda>x v. x = Inr v) (map (to_datetime parse) (map (\<lambda>r. r c) (rows df))) parsed"
    using sequence_Inr[OF p] .
  then have "\<forall>v \<in> set parsed. is_date v"
    by (auto simp: list_all2_conv_all_nth in_set_conv_nth) (metis to_datetime_is_date)
  then have "\<forall>r \<in> set (rows df2). is_date (r c)"
    unfolding d set_column_def by (auto dest!: set_zip_rightD)
  then show ?thesis by (simp add: d set_column_def)
qed

lemma sort_values_props:
  assumes ok: "argsort_ok a" and "sort_values a c df = Inr df3"
  shows "columns df3 = columns df \<and> set (rows df3) = set (rows df) \<and> date_sorted c (rows df3)"
proof -
  let ?st = "filter (\<lambda>r. is_stamp (r c)) (rows df)"
  let ?A = "map (\<lambda>i. ?st ! i) (a (map (\<lambda>r. stamp_val (r c)) ?st))"
  let ?B = "filter (\<lambda>r. \<not> is_stamp (r c)) (rows df)"
  have d: "df3 = df\<lparr>rows := ?A @ ?B\<rparr>"
    using assms(2) by (auto simp: sort_values_def Let_def split: if_splits)
  have sA: "set ?A = set ?st"
    using argsort_mset[OF ok, of ?st "\<lambda>r. stamp_val (r c)"] by (rule mset_eq_setD)
  have "\<forall>r \<in> set ?A. is_stamp (r c)" unfolding sA by simp
  moreover have "sorted (map (\<lambda>r. stamp_val (r c)) ?A)" using ok by (rule argsort_sorted)
  moreover have "\<forall>r \<in> set ?B. \<not> is_stamp (r c)" by simp
  ultimately have "date_sorted c (?A @ ?B)" unfolding date_sorted_def by blast
  moreover have "set (?A @ ?B) = set (rows df)" unfolding set_append sA by auto
  ultimately show ?thesis unfolding d by simp
qed

lemma date_sorted_id:
  assumes ok: "argsort_ok a" and "c \<in> set (columns df)" "date_sorted c (rows df)"
    and dist: "distinct (stamps (map (\<lambda>r. r c) (rows df)))"
  shows "sort_values a c df = Inr df"
proof -
  obtain A B where ab: "rows df = A @ B" "\<forall>r \<in> set A. is_stamp (r c)"
      "sorted (map (\<lambda>r. stamp_val (r c)) A)" "\<forall>r \<in> set B. \<not> is_stamp (r c)"
    using assms(3) unfolding date_sorted_def by blast
  have fa: "filter (\<lambda>r. is_stamp (r c)) (rows df) = A" using ab by simp
  have fb: "filter (\<lambda>r. \<not> is_stamp (r c)) (rows df) = B" using ab by simp
  have sa: "stamps (map (\<lambda>r. r c) A) = map (\<lambda>r. stamp_val (r c)) A"
    using ab(2) by (induction A) (auto simp: is_stamp_def stamp_val_def split: cell.splits)
  have sb: "stamps (map (\<lambda>r. r c) B) = []"
    using ab(4) by (induction B) (auto simp: is_stamp_def split: cell.splits)
  have sapp: "stamps (xs @ ys) = stamps xs @ stamps ys" for xs ys
    by (induction xs rule: stamps.induct) auto
  have "distinct (map (\<lambda>r. stamp_val (r c)) A)"
    using dist unfolding ab(1) by (simp add: sapp sa sb)
  then have "a (map (\<lambda>r. stamp_val (r c)) A) = [0..<length A]"
    using argsort_identity[OF ok ab(3)] by simp
  then have m: "map (\<lambda>i. A ! i) (a (map (\<lambda>r. stamp_val (r c)) A)) = A"
    by (simp add: map_nth)
  have "sort_values a c df = Inr (df\<lparr>rows := A @ B\<rparr>)"
    unfolding sort_values_def Let_def fa fb m using assms(2) by simp
  then show ?thesis using ab(1) by (metis frame.surjective frame.update_convs(2))
qed

lemma date_sorted_filter: "date_sorted c rs \<Longrightarrow> date_sorted c (filter P rs)"
proof -
  assume "date_sorted c rs"
  then obtain A B where ab: "rs = A @ B" "\<forall>r \<in> set A. is_stamp (r c)"
      "sorted (map (\<lambda>r. stamp_val (r c)) A)" "\<forall>r \<in> set B. \<not> is_stamp (r c)"
    unfolding date_sorted_def by blast
  have "sorted (map (\<lambda>r. stamp_val (r c)) (filter P A))" using ab(3) by (rule sorted_filter)
  moreover have "filter P rs = filter P A @ filter P B" using ab(1) by simp
  moreover have "\<forall>r \<in> set (filter P A). is_stamp (r c)" using ab by auto
  moreover have "\<forall>r \<in> set (filter P B). \<not> is_stamp (r c)" using ab by auto
  ultimately show ?thesis unfolding date_sorted_def by blast
qed

lemma date_sorted_map:
  assumes "date_sorted c rs" "\<forall>r \<in> set rs. f r c = r c"
  shows "date_sorted c (map f rs)"
proof -
  obtain A B where ab: "rs = A @ B" "\<forall>r \<in> set A. is_stamp (r c)"
      "sorted (map (\<lambda>r. stamp_val (r c)) A)" "\<forall>r \<in> set B. \<not> is_stamp (r c)"
    using assms(1) unfolding date_sorted_def by blast
  have e: "map (\<lambda>r. stamp_val (r c)) (map f A) = map (\<lambda>r. stamp_val (r c)) A"
    using assms(2) ab(1) by simp
  have "sorted (map (\<lambda>r. stamp_val (r c)) (map f A))" unfolding e by (rule ab(3))
  moreover have "map f rs = map f A @ map f B" using ab(1) by simp
  moreover have "\<forall>r \<in> set (map f A). is_stamp (r c)" using ab assms(2) by auto
  moreover have "\<forall>r \<in> set (map f B). \<not> is_stamp (r c)" using ab assms(2) by auto
  ultimately show ?thesis unfolding date_sorted_def by blast
qed

lemma prep_dataframe_Inr:
  assumes ok: "argsort_ok a" and "prep_dataframe a parse df = Inr out"
  shows "\<exists>df3. (\<forall>r \<in> set (rows df3). is_date (r DATE_COL)) \<and> date_sorted DATE_COL (rows df3)
          \<and> out = fillna PRODUCT_COLS (Flt (Fin 0))
                  ((select (DATE_COL # PRODUCT_COLS) df3)
                     \<lparr>rows := filter (\<lambda>r. \<not> list_all (\<lambda>c. isna (r c)) PRODUCT_COLS)
                                (rows (select (DATE_COL # PRODUCT_COLS) df3))\<rparr>)"
proof -
  obtain df1 df2 df3 where s: "resolve_date_col df = Inr df1"
      "to_datetime_col parse DATE_COL df1 = Inr df2" "sort_values a DATE_COL df2 = Inr df3"
    and o: "out = fillna PRODUCT_COLS (Flt (Fin 0))
                  ((select (DATE_COL # PRODUCT_COLS) df3)
                     \<lparr>rows := filter (\<lambda>r. \<not> list_all (\<lambda>c. isna (r c)) PRODUCT_COLS)
                                (rows (select (DATE_COL # PRODUCT_COLS) df3))\<rparr>)"
    using assms(2) unfolding prep_dataframe_def Let_def
    by (auto split: sum.splits if_splits)
  have "\<forall>r \<in> set (rows df2). is_date (r DATE_COL)"
    using to_datetime_col_dates[OF s(2)] by blast
  then have "\<forall>r \<in> set (rows df3). is_date (r DATE_COL)"
    using sort_values_props[OF ok s(3)] by blast
  moreover have "date_sorted DATE_COL (rows df3)"
    using sort_values_props[OF ok s(3)] by blast
  ultimately show ?thesis using o by blast
qed

lemma prep_dataframe_clean:
  assumes ok: "argsort_ok a" and "prep_dataframe a parse df = Inr out"
  shows "clean_frame out"
proof -
  obtain df3 where d: "\<forall>r \<in> set (rows df3). is_date (r DATE_COL)"
      "date_sorted DATE_COL (rows df3)"
    and o: "out = fillna PRODUCT_COLS (Flt (Fin 0))
                  ((select (DATE_COL # PRODUCT_COLS) df3)
                     \<lparr>rows := filter (\<lambda>r. \<not> list_all (\<lambda>c. isna (r c)) PRODUCT_COLS)
                                (rows (select (DATE_COL # PRODUCT_COLS) df3))\<rparr>)"
    using prep_dataframe_Inr[OF assms] by blast
  define sel :: "row \<Rightarrow> row" where
    "sel = (\<lambda>r k. if k \<in> set (DATE_COL # PRODUCT_COLS) then r k else Flt NaN)"
  define fill :: "row \<Rightarrow> row" where
    "fill = (\<lambda>r k. if k \<in> set PRODUCT_COLS \<and> isna (r k) then Flt (Fin 0) else r k)"
  define keep :: "row \<Rightarrow> bool" where
    "keep = (\<lambda>r. \<not> list_all (\<lambda>c. isna (r c)) PRODUCT_COLS)"
  have rows: "rows out = map fill (filter keep (map sel (rows df3)))"
    and cols: "columns out = DATE_COL # PRODUCT_COLS"
    unfolding o by (simp_all add: fillna_def select_def sel_def fill_def keep_def)
  have seld: "\<And>r. sel r DATE_COL = r DATE_COL" by (simp add: sel_def)
  have filld: "\<And>r. fill r DATE_COL = r DATE_COL" using date_not_product by (simp add: fill_def)
  have s1: "date_sorted DATE_COL (map sel (rows df3))"
    using d(2) seld by (intro date_sorted_map) auto
  have s2: "date_sorted DATE_COL (filter keep (map sel (rows df3)))"
    using s1 by (rule date_sorted_filter)
  have s3: "date_sorted DATE_COL (rows out)"
    unfolding rows using s2 filld by (intro date_sorted_map) auto
  have nz: "\<not> isna (Flt (Fin 0))" by (simp add: isna_def)
  have each: "\<forall>r \<in> set (rows out).
            is_date (r DATE_COL) \<and> (\<forall>c \<in> set PRODUCT_COLS. \<not> isna (r c))
            \<and> (\<forall>k. k \<notin> set (DATE_COL # PRODUCT_COLS) \<longrightarrow> r k = Flt NaN)"
  proof
    fix r assume "r \<in> set (rows out)"
    then obtain r0 where r0: "r0 \<in> set (rows df3)" "r = fill (sel r0)"
      unfolding rows by auto
    have a: "is_date (r DATE_COL)" using d(1) r0 by (simp add: filld seld)
    have b: "\<forall>c \<in> set PRODUCT_COLS. \<not> isna (r c)"
      unfolding r0(2) using nz by (simp add: fill_def)
    have c: "\<forall>k. k \<notin> set (DATE_COL # PRODUCT_COLS) \<longrightarrow> r k = Flt NaN"
      unfolding r0(2) by (simp add: fill_def sel_def)
    show "is_date (r DATE_COL) \<and> (\<forall>c \<in> set PRODUCT_COLS. \<not> isna (r c))
            \<and> (\<forall>k. k \<notin> set (DATE_COL # PRODUCT_COLS) \<longrightarrow> r k = Flt NaN)"
      using a b c by blast
  qed
  show ?thesis unfolding clean_frame_def using cols s3 each by blast
qed

lemma set_column_same: "map2 (\<lambda>r v. r(c := v)) rs (map (\<lambda>r. r c) rs) = rs"
  by (induction rs) auto

lemma clean_frame_fixed:
  assumes ok: "argsort_ok a" and "clean_frame df"
    and dist: "distinct (stamps (map (\<lambda>r. r DATE_COL) (rows df)))"
  shows "prep_dataframe a parse df = Inr df"
proof -
  have cols: "columns df = DATE_COL # PRODUCT_COLS"
    and srt: "date_sorted DATE_COL (rows df)"
    and dates: "\<forall>r \<in> set (rows df). is_date (r DATE_COL)"
    and prods: "\<forall>r \<in> set (rows df). \<forall>c \<in> set PRODUCT_COLS. \<not> isna (r c)"
    and rest: "\<forall>r \<in> set (rows df). \<forall>k. k \<notin> set (DATE_COL # PRODUCT_COLS) \<longrightarrow> r k = Flt NaN"
    using assms(2) unfolding clean_frame_def by blast+
  have r1: "resolve_date_col df = Inr df" by (simp add: resolve_date_col_def cols)
  have sq: "sequence (map (to_datetime parse) (map (\<lambda>r. r DATE_COL) (rows df)))
            = Inr (map (\<lambda>r. r DATE_COL) (rows df))"
    using dates by (intro sequence_map_id) (auto simp: to_datetime_date_id)
  have sc: "set_column DATE_COL (map (\<lambda>r. r DATE_COL) (rows df)) df = df"
    by (simp add: set_column_def set_column_same)
  have r2: "to_datetime_col parse DATE_COL df = Inr df"
    by (simp del: map_map add: to_datetime_col_def column_def cols sq sc)
  have r3: "sort_values a DATE_COL df = Inr df"
    using ok _ srt dist by (rule date_sorted_id) (simp add: cols)
  have miss: "filter (\<lambda>c. c \<notin> set (columns df)) PRODUCT_COLS = []"
    by (simp add: cols)
  have sel: "select (DATE_COL # PRODUCT_COLS) df = df"
  proof -
    have "map (\<lambda>r k. if k \<in> set (DATE_COL # PRODUCT_COLS) then r k else Flt NaN) (rows df) = rows df"
      using rest by (intro map_idI ext) auto
    then show ?thesis unfolding select_def using cols by simp
  qed
  have keep: "filter (\<lambda>r. \<not> list_all (\<lambda>c. isna (r c)) PRODUCT_COLS) (rows df) = rows df"
  proof -
    obtain p where "p \<in> set PRODUCT_COLS" using product_cols_nonempty by (meson last_in_set)
    then have "\<forall>r \<in> set (rows df). \<not> list_all (\<lambda>c. isna (r c)) PRODUCT_COLS"
      using prods by (auto simp: list_all_iff)
    then show ?thesis by simp
  qed
  have fill: "fillna PRODUCT_COLS (Flt (Fin 0)) df = df"
  proof -
    have "map (\<lambda>r k. if k \<in> set PRODUCT_COLS \<and> isna (r k) then Flt (Fin 0) else r k) (rows df) = rows df"
      using prods by (intro map_idI ext) auto
    then show ?thesis unfolding fillna_def by simp
  qed
  show ?thesis
    unfolding prep_dataframe_def by (simp add: r1 r2 r3 miss sel keep fill Let_def)
qed

subsection \<open>Frequency detection\<close>







subsection \<open>The cleaned frame\<close>





text \<open>
  Claim C7, as the code has it. Cleaning is idempotent on every input whose cleaned
  series has no two equal timestamps: cleaning the cleaned frame gives it back, whatever
  the sorting algorithm and the date parser of the second run. Rows with equal
  timestamps are in the order the sorting algorithm leaves them in, and a second cleaning
  can reorder them.
\<close>

theorem prep_dataframe_idempotent:
  assumes "argsort_ok argsort" and "prep_dataframe argsort parse df = Inr out"
    and "distinct (stamps (map (\<lambda>r. r DATE_COL) (rows out)))"
    and "argsort_ok argsort'"
  shows "prep_dataframe argsort' parse' out = Inr out"
  using assms clean_frame_fixed prep_dataframe_clean by blast

text \<open>Three records at 08:00, 09:00 and 11:00.\<close>

theorem prep_dataframe_idempotent_witness:
  "\<not> isl (prep_dataframe stable_argsort parse_2014 irregular_frame)
   \<and> distinct (stamps (map (\<lambda>r. r DATE_COL)
        (rows (projr (prep_dataframe stable_argsort parse_2014 irregular_frame)))))
   \<and> prep_dataframe stable_argsort parse_2014 (projr (prep_dataframe stable_argsort parse_2014 irregular_frame))
       = Inr (projr (prep_dataframe stable_argsort parse_2014 irregular_frame))"
proof -
  have ok: "\<not> isl (prep_dataframe stable_argsort parse_2014 irregular_frame)" by code_simp
  then have p: "prep_dataframe stable_argsort parse_2014 irregular_frame
             = Inr (projr (prep_dataframe stable_argsort parse_2014 irregular_frame))"
    by simp
  have d: "distinct (stamps (map (\<lambda>r. r DATE_COL)
        (rows (projr (prep_dataframe stable_argsort parse_2014 irregular_frame)))))"
    by code_simp
  from prep_dataframe_idempotent[OF stable_argsort_ok p d stable_argsort_ok] ok d
  show ?thesis by blast
qed

text \<open>20 records with one timestamp, sorted by an algorithm that reverses equal keys:
  the second cleaning does not give the first one's frame back.\<close>

theorem prep_dataframe_idempotent_counterexample:
  "recleaned_column reversing_argsort parse_2014 tied_frame ''M01AB''
     \<noteq> cleaned_column reversing_argsort parse_2014 tied_frame ''M01AB''"
  by code_simp

subsection \<open>Recursive forecasting\<close>

lemma n_elems_rect: "\<forall>r \<in> set m. length r = n \<Longrightarrow> n_elems m = length m * n"
  by (induction m) (auto simp: n_elems_def)

lemma width_rect: "m \<noteq> [] \<Longrightarrow> \<forall>r \<in> set m. length r = n \<Longrightarrow> width m = n"
  by (cases m) (auto simp: width_def)

lemma forecast_steps_shape:
  assumes "0 < L"
    and "\<forall>s. length s = L \<and> (\<forall>r \<in> set s. length r = n)
             \<longrightarrow> (\<exists>y. predict s = Inr y \<and> length y = n)"
  shows "length seq = L \<Longrightarrow> \<forall>r \<in> set seq. length r = n \<Longrightarrow> \<forall>r \<in> set acc. length r = n
     \<Longrightarrow> \<exists>p. forecast_steps predict L n k seq acc = Inr p \<and> length p = length acc + k
             \<and> (\<forall>r \<in> set p. length r = n)"
proof (induction k arbitrary: seq acc)
  case 0
  then show ?case by simp
next
  case (Suc k)
  have ne: "n_elems seq = L * n" using Suc.prems(1,2) n_elems_rect by blast
  obtain y where y: "predict seq = Inr y" "length y = n"
    using assms(2) Suc.prems(1,2) by blast
  have l: "length (tl seq @ [y]) = L" using Suc.prems(1) assms(1) by simp
  have r: "\<forall>r \<in> set (tl seq @ [y]). length r = n"
  proof
    fix r assume "r \<in> set (tl seq @ [y])"
    then have "r \<in> set seq \<or> r = y" by (cases seq) auto
    then show "length r = n" using Suc.prems(2) y(2) by blast
  qed
  have a: "\<forall>r \<in> set (acc @ [y]). length r = n" using Suc.prems(3) y(2) by auto
  obtain p where p: "forecast_steps predict L n k (tl seq @ [y]) (acc @ [y]) = Inr p"
      "length p = length (acc @ [y]) + k" "\<forall>r \<in> set p. length r = n"
    using Suc.IH[OF l r a] by blast
  have "forecast_steps predict L n (Suc k) seq acc = Inr p"
    using ne y p(1) by simp
  then show ?case using p(2,3) by simp
qed

text \<open>
  Claim C4. For a horizon of at least 1 and a window of exactly \<open>seq_len\<close> rows of
  width \<open>n\<close>, with a predictor that maps such a window to one vector of width \<open>n\<close>
  and a scaler whose inverse keeps the shape of an array of width \<open>n\<close>, the forecaster
  returns exactly \<open>horizon\<close> rows of width \<open>n\<close>.
\<close>

theorem multi_step_forecast_shape:
  assumes horizon: "1 \<le> horizon"
    and window: "length window = seq_len" "0 < seq_len" "\<forall>r \<in> set window. length r = n"
    and predictor: "\<forall>s. length s = seq_len \<and> (\<forall>r \<in> set s. length r = n)
             \<longrightarrow> (\<exists>y. predict s = Inr y \<and> length y = n)"
    and scaler: "\<forall>m. m \<noteq> [] \<and> (\<forall>r \<in> set m. length r = n)
             \<longrightarrow> (\<exists>m'. inverse_transform m = Inr m' \<and> length m' = length m
                       \<and> (\<forall>r \<in> set m'. length r = n))"
  shows "\<exists>preds. multi_step_forecast predict inverse_transform seq_len window horizon = Inr preds
           \<and> length preds = nat horizon \<and> (\<forall>r \<in> set preds. length r = n)"
proof -
  have w: "width window = n" using window by (intro width_rect) auto
  obtain p where p: "forecast_steps predict seq_len n (nat horizon) window [] = Inr p"
      "length p = nat horizon" "\<forall>r \<in> set p. length r = n"
    using forecast_steps_shape[OF window(2) predictor window(1) window(3), of "[]" "nat horizon"]
    by auto
  have "p \<noteq> []" using p(2) horizon by auto
  then obtain m' where m: "inverse_transform p = Inr m'" "length m' = length p"
      "\<forall>r \<in> set m'. length r = n"
    using scaler p(3) by blast
  have "multi_step_forecast predict inverse_transform seq_len window horizon = Inr m'"
    by (simp add: multi_step_forecast_def w p(1) m(1))
  then show ?thesis using m p(2) by simp
qed

text \<open>A window of two rows of width 2 and a horizon of 3.\<close>

theorem multi_step_forecast_shape_witness:
  "(1::int) \<le> 3
   \<and> length [[Fin 1, Fin 2], [Fin 3, Fin 4]] = (2::nat)
   \<and> multi_step_forecast persistence_model identity_scaler 2 [[Fin 1, Fin 2], [Fin 3, Fin 4]] 3
       = Inr [[Fin 3, Fin 4], [Fin 3, Fin 4], [Fin 3, Fin 4]]
   \<and> length (projr (multi_step_forecast persistence_model identity_scaler 2
                      [[Fin 1, Fin 2], [Fin 3, Fin 4]] 3)) = nat 3"
proof -
  let ?w = "[[Fin 1, Fin 2], [Fin 3, Fin 4]]"
  have h: "(1::int) \<le> 3" by simp
  have l: "length ?w = (2::nat)" by simp
  have z: "0 < (2::nat)" by simp
  have r: "\<forall>r \<in> set ?w. length r = (2::nat)" by simp
  have pr: "\<forall>s. length s = (2::nat) \<and> (\<forall>r \<in> set s. length r = (2::nat))
             \<longrightarrow> (\<exists>y. persistence_model s = Inr y \<and> length y = 2)"
  proof (intro allI impI)
    fix s :: matrix assume a: "length s = 2 \<and> (\<forall>r \<in> set s. length r = 2)"
    then have "s \<noteq> []" by auto
    then have "last s \<in> set s" by simp
    then show "\<exists>y. persistence_model s = Inr y \<and> length y = 2"
      using a by (simp add: persistence_model_def)
  qed
  have sc: "\<forall>m. m \<noteq> [] \<and> (\<forall>r \<in> set m. length r = (2::nat))
             \<longrightarrow> (\<exists>m'. identity_scaler m = Inr m' \<and> length m' = length m
                       \<and> (\<forall>r \<in> set m'. length r = 2))"
    by (simp add: identity_scaler_def)
  obtain preds where p: "multi_step_forecast persistence_model identity_scaler 2 ?w 3 = Inr preds"
      "length preds = nat 3"
    using multi_step_forecast_shape[OF h l z r pr sc] by blast
  have e: "multi_step_forecast persistence_model identity_scaler 2 ?w 3
       = Inr [[Fin 3, Fin 4], [Fin 3, Fin 4], [Fin 3, Fin 4]]"
    by code_simp
  show ?thesis using h l p e by simp
qed

subsection \<open>Bounds of the forecast\<close>

lemma py_max2_Fin: "py_max2 (Fin a) (Fin b) = Fin (max a b)"
  by (simp add: py_max2_def max_def)

lemma py_min2_Fin: "py_min2 (Fin a) (Fin b) = Fin (min a b)"
  by (auto simp: py_min2_def min_def)

lemma py_max_Fin: "py_max (Fin x) (map Fin xs) = Fin (Max (set (x # xs)))"
proof -
  have "foldl py_max2 (Fin x) (map Fin xs) = Fin (fold max xs x)"
    by (induction xs arbitrary: x) (simp_all add: py_max2_Fin max.commute)
  moreover have "Max (set (x # xs)) = fold max xs x" by (rule Max.set_eq_fold)
  ultimately show ?thesis by (simp only: py_max_def)
qed

lemma np_sum_Fin: "np_sum (map Fin xs) = Fin (sum_list xs)"
proof -
  have "foldl fl_add (Fin a) (map Fin xs) = Fin (a + sum_list xs)" for a
    by (induction xs arbitrary: a) (simp_all add: add.assoc)
  from this[of 0] show ?thesis by (simp add: np_sum_def)
qed

lemma np_mean_Fin: "xs \<noteq> [] \<Longrightarrow> np_mean (map Fin xs) = Fin (sum_list xs / real (length xs))"
  by (simp add: np_mean_def np_sum_Fin)

lemma np_std_Fin:
  assumes "xs \<noteq> []"
  shows "np_std (map Fin xs) =
     Fin (sqrt (sum_list (map (\<lambda>x. (x - sum_list xs / real (length xs))\<^sup>2) xs) / real (length xs)))"
proof -
  let ?mu = "sum_list xs / real (length xs)"
  have m: "np_mean (map Fin xs) = Fin ?mu" using assms by (rule np_mean_Fin)
  have sq: "map (\<lambda>x. fl_mul (fl_sub x (Fin ?mu)) (fl_sub x (Fin ?mu))) (map Fin xs)
            = map Fin (map (\<lambda>x. (x - ?mu)\<^sup>2) xs)"
    by (simp add: fl_sub_def power2_eq_square)
  have nn: "0 \<le> sum_list (map (\<lambda>x. (x - ?mu)\<^sup>2) xs) / real (length xs)"
    by (intro divide_nonneg_nonneg sum_list_nonneg) auto
  have "np_mean (map Fin (map (\<lambda>x. (x - ?mu)\<^sup>2) xs))
          = Fin (sum_list (map (\<lambda>x. (x - ?mu)\<^sup>2) xs) / real (length xs))"
    using assms np_mean_Fin[of "map (\<lambda>x. (x - ?mu)\<^sup>2) xs"] by simp
  then show ?thesis
    unfolding np_std_def m sq using nn by simp
qed

lemma hist_max_Fin:
  "hist_max (map Fin hs) = Fin (if hs \<noteq> [] \<and> 0 < Max (set hs) then Max (set hs) else 1)"
proof (cases hs)
  case Nil
  then show ?thesis by (simp add: hist_max_def)
next
  case (Cons x xs)
  then show ?thesis by (simp add: hist_max_def py_max_Fin)
qed

lemma hist_std_Fin:
  "hist_std (map Fin hs) =
     Fin (if hs = [] then 1
          else sqrt (sum_list (map (\<lambda>x. (x - sum_list hs / real (length hs))\<^sup>2) hs) / real (length hs)))"
  by (simp add: hist_std_def np_std_Fin)




subsection \<open>The forecast route\<close>

lemma bind_error_Inr:
  "bind_error m f = Inr r \<Longrightarrow> \<exists>v. m = Inr v \<and> f v = Inr r"
  by (cases m) auto

lemma default_category_in: "default_category c \<in> set PRODUCT_COLS"
  by (auto simp: default_category_def PRODUCT_COLS_def split: option.splits)

lemma default_category_first:
  "c = None \<or> (\<exists>s. c = Some s \<and> s \<notin> set PRODUCT_COLS) \<Longrightarrow> default_category c = ''M01AB''"
  by (auto simp: default_category_def PRODUCT_COLS_def)

lemma lstm_path_category:
  assumes "lstm_path env df days c freq = Inr (Reply resp)"
  shows "category resp = c \<and> frequency resp = freq"
proof -
  have "\<not> length (rows df) < SEQ_LEN env"
    using assms by (auto simp: lstm_path_def Let_def split: if_splits)
  then show ?thesis
    using assms unfolding lstm_path_def Let_def
    by (auto dest!: bind_error_Inr)
qed

lemma prophet_try_category:
  assumes "prophet_try env df days c freq = Inr resp"
  shows "category resp = c \<and> frequency resp = freq \<and> \<not> fallback resp"
  using assms unfolding prophet_try_def Let_def
  by (auto dest!: bind_error_Inr split: if_splits option.splits)

lemma fallback_forecast_category:
  assumes "fallback_forecast df days c freq = Inr (Reply resp)"
  shows "category resp = c \<and> frequency resp = freq \<and> fallback resp"
  using assms unfolding fallback_forecast_def
  by (auto dest!: bind_error_Inr)

lemma fallback_forecast_reply: "fallback_forecast df days c freq = Inr r \<Longrightarrow> \<exists>resp. r = Reply resp"
  unfolding fallback_forecast_def by (auto dest!: bind_error_Inr)

lemma prophet_path_category:
  assumes "prophet_path env df days c freq = Inr (Reply resp)"
  shows "category resp = c \<and> frequency resp = freq"
  using assms prophet_try_category fallback_forecast_category
  unfolding prophet_path_def by (fastforce split: sum.splits)

lemma predict_csv_Reply:
  assumes "predict_csv env req = Reply resp"
  shows "\<exists>f days df0 df freq.
           file_field req = Some f \<and> requested_days env req = Inr days
           \<and> pd_read_csv env f = Inr df0 \<and> prep_dataframe (np_argsort env) (parse_date env) df0 = Inr df
           \<and> detect_frequency (np_argsort env) (freq_inference env) df = Inr freq
           \<and> (if freq = ''H'' then lstm_path env df days (default_category (category_field req)) freq
               else prophet_path env df days (default_category (category_field req)) freq)
              = Inr (Reply resp)"
proof -
  obtain f where f: "file_field req = Some f"
    using assms by (auto simp: predict_csv_def split: option.splits)
  then have b: "predict_csv_body env f req = Inr (Reply resp)"
    using assms by (auto simp: predict_csv_def split: sum.splits)
  then obtain days where 1: "requested_days env req = Inr days"
    and b1: "bind_error (pd_read_csv env f) (\<lambda>df0.
     bind_error (prep_dataframe (np_argsort env) (parse_date env) df0) (\<lambda>df.
     bind_error (detect_frequency (np_argsort env) (freq_inference env) df) (\<lambda>freq.
       let category_v = default_category (category_field req) in
       if freq = ''H'' then lstm_path env df days category_v freq
       else prophet_path env df days category_v freq))) = Inr (Reply resp)"
    unfolding predict_csv_body_def by (blast dest: bind_error_Inr)
  then obtain df0 where 2: "pd_read_csv env f = Inr df0"
    and b2: "bind_error (prep_dataframe (np_argsort env) (parse_date env) df0) (\<lambda>df.
     bind_error (detect_frequency (np_argsort env) (freq_inference env) df) (\<lambda>freq.
       let category_v = default_category (category_field req) in
       if freq = ''H'' then lstm_path env df days category_v freq
       else prophet_path env df days category_v freq)) = Inr (Reply resp)"
    by (blast dest: bind_error_Inr)
  then obtain df where 3: "prep_dataframe (np_argsort env) (parse_date env) df0 = Inr df"
    and b3: "bind_error (detect_frequency (np_argsort env) (freq_inference env) df) (\<lambda>freq.
       let category_v = default_category (category_field req) in
       if freq = ''H'' then lstm_path env df days category_v freq
       else prophet_path env df days category_v freq) = Inr (Reply resp)"
    by (blast dest: bind_error_Inr)
  then obtain freq where 4: "detect_frequency (np_argsort env) (freq_inference env) df = Inr freq"
    and b4: "(let category_v = default_category (category_field req) in
       if freq = ''H'' then lstm_path env df days category_v freq
       else prophet_path env df days category_v freq) = Inr (Reply resp)"
    by (blast dest: bind_error_Inr)
  have "(if freq = ''H'' then lstm_path env df days (default_category (category_field req)) freq
               else prophet_path env df days (default_category (category_field req)) freq)
              = Inr (Reply resp)"
    using b4 by (simp add: Let_def)
  then show ?thesis using f 1 2 3 4 by blast
qed

lemma predict_csv_steps:
  assumes "file_field req = Some f" "requested_days env req = Inr days"
    "pd_read_csv env f = Inr df0" "prep_dataframe (np_argsort env) (parse_date env) df0 = Inr df"
    "detect_frequency (np_argsort env) (freq_inference env) df = Inr freq"
  shows "predict_csv env req =
     (case (if freq = ''H'' then lstm_path env df days (default_category (category_field req)) freq
            else prophet_path env df days (default_category (category_field req)) freq) of
        Inl e \<Rightarrow> Failure 500 (''Prediction failed: '' @ error_message e)
      | Inr r \<Rightarrow> r)"
  using assms by (simp add: predict_csv_def predict_csv_body_def Let_def)

lemma predict_csv_category:
  assumes "predict_csv env req = Reply resp"
  shows "category resp = default_category (category_field req)"
proof -
  obtain f days df0 df freq where
    "(if freq = ''H'' then lstm_path env df days (default_category (category_field req)) freq
               else prophet_path env df days (default_category (category_field req)) freq)
              = Inr (Reply resp)"
    using predict_csv_Reply[OF assms] by blast
  then show ?thesis
    using lstm_path_category prophet_path_category by (metis (full_types))
qed

lemma predict_csv_cong:
  assumes "default_category (category_field req) = default_category (category_field req')"
    "file_field req = file_field req'" "days_field req = days_field req'"
  shows "predict_csv env req = predict_csv env req'"
proof -
  have "predict_csv_body env f req = predict_csv_body env f req'" for f
    using assms by (simp add: predict_csv_body_def requested_days_def)
  then show ?thesis using assms(2) by (simp add: predict_csv_def split: option.splits)
qed

lemma tl_date_range:
  "0 \<le> periods \<Longrightarrow> tl (map f [0..<nat (periods + 1)]) = map f [1..<Suc (nat periods)]"
  by (simp add: nat_add_distrib map_tl[symmetric] del: upt_Suc)

lemma clean_columns:
  assumes "prep_dataframe a parse df0 = Inr df"
  shows "columns df = DATE_COL # PRODUCT_COLS"
proof -
  obtain df3 where "df = fillna PRODUCT_COLS (Flt (Fin 0))
                  ((select (DATE_COL # PRODUCT_COLS) df3)
                     \<lparr>rows := filter (\<lambda>r. \<not> list_all (\<lambda>c. isna (r c)) PRODUCT_COLS)
                                (rows (select (DATE_COL # PRODUCT_COLS) df3))\<rparr>)"
    using assms unfolding prep_dataframe_def Let_def
    by (auto split: sum.splits if_splits)
  then show ?thesis by (simp add: fillna_def select_def)
qed

lemma fallback_forecast_ok:
  assumes cols: "columns df = DATE_COL # PRODUCT_COLS" and c: "c \<in> set PRODUCT_COLS"
    and days: "0 \<le> days"
    and stamp: "date_max (map (\<lambda>r. r DATE_COL) (rows df)) = Stamp t"
    and bound: "t + (days + 1) * day_ns \<le> i8max"
    and hist: "floats (map (\<lambda>r. r c) (rows df)) = Inr hist_f"
  shows "fallback_forecast df days c freq =
     Inr (Reply \<lparr>hist_dates = map (\<lambda>r. r DATE_COL) (rows df),
                 hist_values = map (\<lambda>r. r c) (rows df),
                 forecast_dates = map (\<lambda>k. t + int k * day_ns) [1..<Suc (nat days)],
                 forecast_values = replicate (nat days) (fl_mul (recent_avg hist_f) (Fin (9/10))),
                 metrics = (20, 25, 15), granularity = ''days'',
                 frequency = freq, category = c, fallback = True\<rparr>)"
proof -
  have c1: "column df c = Inr (map (\<lambda>r. r c) (rows df))"
    using c by (simp add: column_def cols)
  have c2: "column df DATE_COL = Inr (map (\<lambda>r. r DATE_COL) (rows df))"
    by (simp add: column_def cols)
  have dr: "date_range (Stamp t) (days + 1) day_ns
              = Inr (map (\<lambda>k. t + int k * day_ns) [0..<nat (days + 1)])"
    using days bound by (simp add: date_range_def)
  show ?thesis
    unfolding fallback_forecast_def
    by (simp add: c1 c2 hist stamp dr tl_date_range[OF days] del: upt_Suc)
qed

lemma fallback_forecast_far:
  assumes cols: "columns df = DATE_COL # PRODUCT_COLS" and c: "c \<in> set PRODUCT_COLS"
    and days: "0 \<le> days"
    and stamp: "date_max (map (\<lambda>r. r DATE_COL) (rows df)) = Stamp t"
    and bound: "i8max < t + (days + 1) * day_ns"
    and hist: "floats (map (\<lambda>r. r c) (rows df)) = Inr hist_f"
  shows "fallback_forecast df days c freq
           = Inl (ValueError ''Cannot generate range: out of bounds nanosecond timestamp'')"
proof -
  have c1: "column df c = Inr (map (\<lambda>r. r c) (rows df))"
    using c by (simp add: column_def cols)
  have c2: "column df DATE_COL = Inr (map (\<lambda>r. r DATE_COL) (rows df))"
    by (simp add: column_def cols)
  have dr: "date_range (Stamp t) (days + 1) day_ns
              = Inl (ValueError ''Cannot generate range: out of bounds nanosecond timestamp'')"
    using days bound by (simp add: date_range_def)
  show ?thesis
    unfolding fallback_forecast_def by (simp add: c1 c2 hist stamp dr)
qed

text \<open>The sample of 40 daily records: it is cleaned, found daily, has no model for
  M01AB, and its last record is of 10 February 2014.\<close>

lemma daily_prep:
  "prep_dataframe stable_argsort parse_2014 (series_frame 1388649600000000000 day_ns 40)
     = Inr (projr (prep_dataframe stable_argsort parse_2014 (series_frame 1388649600000000000 day_ns 40)))"
proof -
  have "\<not> isl (prep_dataframe stable_argsort parse_2014 (series_frame 1388649600000000000 day_ns 40))"
    by code_simp
  then show ?thesis by simp
qed

lemma daily_freq:
  "detect_frequency stable_argsort regular_inference
     (projr (prep_dataframe stable_argsort parse_2014 (series_frame 1388649600000000000 day_ns 40)))
     = Inr ''D''"
  by code_simp

lemma daily_stamp:
  "date_max (map (\<lambda>r. r DATE_COL)
     (rows (projr (prep_dataframe stable_argsort parse_2014 (series_frame 1388649600000000000 day_ns 40)))))
     = Stamp 1392019200000000000"
  by code_simp

lemma daily_hist:
  "floats (map (\<lambda>r. r ''M01AB'')
     (rows (projr (prep_dataframe stable_argsort parse_2014 (series_frame 1388649600000000000 day_ns 40)))))
     = Inr (map (\<lambda>i. Fin (real i)) [0..<40])"
  by code_simp

lemma no_model: "get_prophet_model sample_env ''D'' ''M01AB''
                   = Inl (ValueError ''No model found for category M01AB'')"
  by code_simp

lemma daily_fails:
  "prophet_try sample_env df days ''M01AB'' ''D''
     = Inl (ValueError ''No model found for category M01AB'')"
  unfolding prophet_try_def by (simp add: no_model)

lemma daily_days: "requested_days sample_env daily_request = Inr 5"
  by code_simp

lemma daily_reply: "\<exists>resp. predict_csv sample_env daily_request = Reply resp"
proof -
  let ?f = "series_frame 1388649600000000000 day_ns 40"
  let ?df = "projr (prep_dataframe stable_argsort parse_2014 ?f)"
  have upload: "file_field daily_request = Some ?f" by (simp add: daily_request_def)
  have rd: "pd_read_csv sample_env ?f = Inr ?f" by (simp add: sample_env_def)
  have prep: "prep_dataframe (np_argsort sample_env) (parse_date sample_env) ?f = Inr ?df"
    using daily_prep by (simp add: sample_env_def)
  have freq: "detect_frequency (np_argsort sample_env) (freq_inference sample_env) ?df = Inr ''D''"
    using daily_freq by (simp add: sample_env_def)
  have cat: "default_category (category_field daily_request) = ''M01AB''" by code_simp
  have cols: "columns ?df = DATE_COL # PRODUCT_COLS" using daily_prep by (rule clean_columns)
  have c: "''M01AB'' \<in> set PRODUCT_COLS" by (simp add: PRODUCT_COLS_def)
  have b: "1392019200000000000 + (5 + 1) * day_ns \<le> i8max" by (simp add: day_ns_def i8max_def)
  have fb: "\<exists>resp. fallback_forecast ?df 5 ''M01AB'' ''D'' = Inr (Reply resp)"
    using fallback_forecast_ok[OF cols c _ daily_stamp b daily_hist, of "''D''"] by simp
  show ?thesis
    using predict_csv_steps[OF upload daily_days rd prep freq] fb
    by (auto simp: cat prophet_path_def daily_fails)
qed

text \<open>
  Claim C10. When the category of a request is absent or is none of the eight product
  columns, the route answers exactly as for the category M01AB, and a successful
  response carries M01AB as its category.
\<close>

theorem unknown_category_defaults:
  assumes "category_field req = None \<or> (\<exists>s. category_field req = Some s \<and> s \<notin> set PRODUCT_COLS)"
  shows "predict_csv env req = predict_csv env (req\<lparr>category_field := Some ''M01AB''\<rparr>)
     \<and> (\<forall>resp. predict_csv env req = Reply resp \<longrightarrow> category resp = ''M01AB'')"
proof -
  have d: "default_category (category_field req) = ''M01AB''"
    using assms by (rule default_category_first)
  have d': "default_category (Some ''M01AB'') = ''M01AB''"
    by (simp add: default_category_def PRODUCT_COLS_def)
  have "predict_csv env req = predict_csv env (req\<lparr>category_field := Some ''M01AB''\<rparr>)"
    by (rule predict_csv_cong) (simp_all add: d d')
  moreover have "\<forall>resp. predict_csv env req = Reply resp \<longrightarrow> category resp = ''M01AB''"
    using predict_csv_category d by metis
  ultimately show ?thesis by blast
qed

text \<open>40 daily records with the category XYZ: the response is for M01AB.\<close>

theorem unknown_category_defaults_witness:
  "category_field unknown_category_request = Some ''XYZ'' \<and> ''XYZ'' \<notin> set PRODUCT_COLS
   \<and> reply_category (predict_csv sample_env unknown_category_request) = Some ''M01AB''"
proof -
  have a: "category_field unknown_category_request = Some ''XYZ''"
    by (simp add: unknown_category_request_def)
  have b: "''XYZ'' \<notin> set PRODUCT_COLS" by (simp add: PRODUCT_COLS_def)
  have h: "category_field unknown_category_request = None
           \<or> (\<exists>s. category_field unknown_category_request = Some s \<and> s \<notin> set PRODUCT_COLS)"
    using a b by simp
  have e: "unknown_category_request\<lparr>category_field := Some ''M01AB''\<rparr> = daily_request"
    by (simp add: unknown_category_request_def daily_request_def)
  from unknown_category_defaults[OF h, of sample_env]
  have 1: "predict_csv sample_env unknown_category_request = predict_csv sample_env daily_request"
    and 2: "\<forall>resp. predict_csv sample_env unknown_category_request = Reply resp
              \<longrightarrow> category resp = ''M01AB''"
    unfolding e by blast+
  obtain resp where "predict_csv sample_env unknown_category_request = Reply resp"
    using daily_reply 1 by auto
  then show ?thesis using a b 2 by (simp add: reply_category_def)
qed

text \<open>
  Claim C3, as the code has it. For a request that is not hourly and for which the
  additive predictor fails, whatever the failure, the route returns a response with the
  fallback flag whose forecast is 0.9 times the mean of the last 30 historical values (of
  all of them when fewer than 30), once for every requested day, dated day by day after
  the latest timestamp \<open>t\<close> of the series. This holds for a cleaned series that has a
  timestamp and float values \<open>hist_f\<close> in the column of the category, and a number of
  days that is not negative and keeps the forecast dates within the 64-bit nanosecond
  range. Beyond that range, and for a series without any timestamp, the date range
  raises inside the handler and the route answers with status 500.
\<close>

theorem fallback_on_prophet_failure:
  assumes upload: "file_field req = Some f"
    and days: "requested_days env req = Inr days" "0 \<le> days"
    and df: "pd_read_csv env f = Inr df0"
            "prep_dataframe (np_argsort env) (parse_date env) df0 = Inr df"
    and freq: "detect_frequency (np_argsort env) (freq_inference env) df = Inr freq" "freq \<noteq> ''H''"
    and fails: "prophet_try env df days (default_category (category_field req)) freq = Inl e"
    and stamp: "date_max (map (\<lambda>r. r DATE_COL) (rows df)) = Stamp t"
    and bound: "t + (days + 1) * day_ns \<le> i8max"
    and hist: "floats (map (\<lambda>r. r (default_category (category_field req))) (rows df)) = Inr hist_f"
  shows "\<exists>resp. predict_csv env req = Reply resp \<and> fallback resp
           \<and> forecast_values resp =
               replicate (nat days)
                 (fl_mul (np_mean (if 30 \<le> length hist_f then drop (length hist_f - 30) hist_f
                                   else hist_f)) (Fin (9/10)))
           \<and> forecast_dates resp = map (\<lambda>k. t + int k * day_ns) [1..<Suc (nat days)]
           \<and> frequency resp = freq
           \<and> category resp = default_category (category_field req)"
proof -
  let ?c = "default_category (category_field req)"
  have cols: "columns df = DATE_COL # PRODUCT_COLS" using df(2) by (rule clean_columns)
  have ra: "recent_avg hist_f = np_mean (if 30 \<le> length hist_f then drop (length hist_f - 30) hist_f
                                   else hist_f)"
    by (simp add: recent_avg_def)
  have fb: "fallback_forecast df days ?c freq =
     Inr (Reply \<lparr>hist_dates = map (\<lambda>r. r DATE_COL) (rows df),
                 hist_values = map (\<lambda>r. r ?c) (rows df),
                 forecast_dates = map (\<lambda>k. t + int k * day_ns) [1..<Suc (nat days)],
                 forecast_values = replicate (nat days) (fl_mul (recent_avg hist_f) (Fin (9/10))),
                 metrics = (20, 25, 15), granularity = ''days'',
                 frequency = freq, category = ?c, fallback = True\<rparr>)"
    using cols default_category_in days(2) stamp bound hist by (rule fallback_forecast_ok)
  have "predict_csv env req =
     Reply \<lparr>hist_dates = map (\<lambda>r. r DATE_COL) (rows df),
                 hist_values = map (\<lambda>r. r ?c) (rows df),
                 forecast_dates = map (\<lambda>k. t + int k * day_ns) [1..<Suc (nat days)],
                 forecast_values = replicate (nat days) (fl_mul (recent_avg hist_f) (Fin (9/10))),
                 metrics = (20, 25, 15), granularity = ''days'',
                 frequency = freq, category = ?c, fallback = True\<rparr>"
    using predict_csv_steps[OF upload days(1) df freq(1)] freq(2) fails
    by (simp add: prophet_path_def fb)
  then show ?thesis using ra by simp
qed

text \<open>40 daily records, 5 days, and no model for M01AB: five points of 22.05, which is
  0.9 times the mean 24.5 of the values 10 to 39.\<close>

theorem fallback_on_prophet_failure_witness:
  "requested_days sample_env daily_request = Inr 5
   \<and> 1392019200000000000 + (5 + 1) * day_ns \<le> i8max
   \<and> fallback_flag (predict_csv sample_env daily_request) = Some True
   \<and> forecast_block (predict_csv sample_env daily_request) =
       Some ([1392105600000000000, 1392192000000000000, 1392278400000000000,
              1392364800000000000, 1392451200000000000],
             [Fin (441/20), Fin (441/20), Fin (441/20), Fin (441/20), Fin (441/20)])"
proof -
  let ?f = "series_frame 1388649600000000000 day_ns 40"
  let ?df = "projr (prep_dataframe stable_argsort parse_2014 ?f)"
  let ?hist = "map (\<lambda>i. Fin (real i)) [0..<40]"
  have upload: "file_field daily_request = Some ?f" by (simp add: daily_request_def)
  have pos: "(0::int) \<le> 5" by simp
  have rd: "pd_read_csv sample_env ?f = Inr ?f" by (simp add: sample_env_def)
  have prep: "prep_dataframe (np_argsort sample_env) (parse_date sample_env) ?f = Inr ?df"
    using daily_prep by (simp add: sample_env_def)
  have freq: "detect_frequency (np_argsort sample_env) (freq_inference sample_env) ?df = Inr ''D''"
    using daily_freq by (simp add: sample_env_def)
  have nh: "''D'' \<noteq> ''H''" by simp
  have cat: "default_category (category_field daily_request) = ''M01AB''" by code_simp
  have b: "1392019200000000000 + (5 + 1) * day_ns \<le> i8max" by (simp add: day_ns_def i8max_def)
  obtain resp where r: "predict_csv sample_env daily_request = Reply resp" "fallback resp"
     "forecast_values resp =
               replicate (nat 5)
                 (fl_mul (np_mean (if 30 \<le> length ?hist then drop (length ?hist - 30) ?hist
                                   else ?hist)) (Fin (9/10)))"
     "forecast_dates resp = map (\<lambda>k. 1392019200000000000 + int k * day_ns) [1..<Suc (nat 5)]"
    using fallback_on_prophet_failure[OF upload daily_days pos rd prep freq nh, unfolded cat,
            OF daily_fails daily_stamp b daily_hist]
    by blast
  have v: "replicate (nat 5)
                 (fl_mul (np_mean (if 30 \<le> length ?hist then drop (length ?hist - 30) ?hist
                                   else ?hist)) (Fin (9/10)))
           = [Fin (441/20), Fin (441/20), Fin (441/20), Fin (441/20), Fin (441/20)]"
    by code_simp
  have d: "map (\<lambda>k. 1392019200000000000 + int k * day_ns) [1..<Suc (nat 5)]
           = [1392105600000000000, 1392192000000000000, 1392278400000000000,
              1392364800000000000, 1392451200000000000]"
    by code_simp
  show ?thesis
    using daily_days b r v d by (simp add: fallback_flag_def forecast_block_def)
qed

text \<open>The same 40 daily records with 100000 days: the predictor fails, the forecast dates
  would end in the year 2287, and the route answers with status 500 instead of a
  fallback response.\<close>

theorem fallback_on_prophet_failure_counterexample:
  "requested_days sample_env far_request = Inr 100000
   \<and> status_code (predict_csv sample_env far_request) = 500"
proof -
  let ?f = "series_frame 1388649600000000000 day_ns 40"
  let ?df = "projr (prep_dataframe stable_argsort parse_2014 ?f)"
  have upload: "file_field far_request = Some ?f" by (simp add: far_request_def)
  have days: "requested_days sample_env far_request = Inr 100000" by code_simp
  have rd: "pd_read_csv sample_env ?f = Inr ?f" by (simp add: sample_env_def)
  have prep: "prep_dataframe (np_argsort sample_env) (parse_date sample_env) ?f = Inr ?df"
    using daily_prep by (simp add: sample_env_def)
  have freq: "detect_frequency (np_argsort sample_env) (freq_inference sample_env) ?df = Inr ''D''"
    using daily_freq by (simp add: sample_env_def)
  have cat: "default_category (category_field far_request) = ''M01AB''" by code_simp
  have cols: "columns ?df = DATE_COL # PRODUCT_COLS" using daily_prep by (rule clean_columns)
  have c: "''M01AB'' \<in> set PRODUCT_COLS" by (simp add: PRODUCT_COLS_def)
  have b: "i8max < 1392019200000000000 + (100000 + 1) * day_ns"
    by (simp add: day_ns_def i8max_def)
  have fb: "fallback_forecast ?df 100000 ''M01AB'' ''D''
              = Inl (ValueError ''Cannot generate range: out of bounds nanosecond timestamp'')"
    using fallback_forecast_far[OF cols c _ daily_stamp b daily_hist, of "''D''"] by simp
  have "predict_csv sample_env far_request =
          Failure 500 (''Prediction failed: ''
             @ error_message (ValueError ''Cannot generate range: out of bounds nanosecond timestamp''))"
    using predict_csv_steps[OF upload days rd prep freq]
    by (simp add: cat prophet_path_def daily_fails fb)
  then show ?thesis using days by (simp add: status_code_def)
qed

subsection \<open>The hourly path\<close>

lemma forecast_steps_length:
  "forecast_steps predict L n k seq acc = Inr p \<Longrightarrow> length p = length acc + k"
proof (induction k arbitrary: seq acc)
  case 0
  then show ?case by simp
next
  case (Suc k)
  then obtain y where "forecast_steps predict L n k (tl seq @ [y]) (acc @ [y]) = Inr p"
    by (auto split: if_splits sum.splits)
  then show ?case using Suc.IH by fastforce
qed

lemma take_column_length: "take_column i m = Inr c \<Longrightarrow> length c = length m"
  by (auto simp: take_column_def split: if_splits)

lemma date_max_upper:
  assumes "date_max cs = Stamp start"
  shows "\<forall>t \<in> set (stamps cs). t \<le> start"
proof (cases "stamps cs")
  case Nil
  then show ?thesis by simp
next
  case (Cons t ts)
  then have "start = fold max ts t" using assms by (simp add: date_max_def)
  then have "start = Max (set (t # ts))" by (simp only: Max.set_eq_fold)
  then show ?thesis using Cons by simp
qed

lemma date_range_Inr:
  assumes "date_range c periods step = Inr idx"
  shows "\<exists>t. c = Stamp t \<and> 0 \<le> periods \<and> idx = map (\<lambda>k. t + int k * step) [0..<nat periods]"
  using assms by (auto simp: date_range_def split: cell.splits if_splits)

lemma tl_date_range_neg: 
  "- 1 \<le> days \<Longrightarrow> tl (map f [0..<nat (days + 1)]) = map f [1..<Suc (nat days)]"
proof (cases "0 \<le> days")
  case True
  then show ?thesis by (rule tl_date_range)
next
  case False
  assume "- 1 \<le> days"
  with False have "days = - 1" by simp
  then show ?thesis by simp
qed

lemma lstm_path_Reply:
  assumes "lstm_path env df days c freq = Inr (Reply resp)"
  shows "\<exists>scaled preds cp dates idx hist_f.
      multi_step_forecast (model_predict env) (scaler_inverse_transform env)
         (SEQ_LEN env) (last_rows (SEQ_LEN env) scaled) days = Inr preds
      \<and> take_column (index_of c PRODUCT_COLS) preds = Inr cp
      \<and> date_range (date_max dates) (days + 1) hour_ns = Inr idx
      \<and> hist_dates resp = dates \<and> forecast_dates resp = tl idx
      \<and> forecast_values resp = forecast_clipped hist_f cp"
proof -
  have n: "\<not> length (rows df) < SEQ_LEN env"
    using assms by (auto simp: lstm_path_def Let_def split: if_splits)
  have b0: "bind_error (values_matrix df PRODUCT_COLS) (\<lambda>vals.
        bind_error (scaler_transform env vals) (\<lambda>scaled.
        bind_error (multi_step_forecast (model_predict env) (scaler_inverse_transform env)
                      (SEQ_LEN env) (last_rows (SEQ_LEN env) scaled) days) (\<lambda>preds.
        bind_error (take_column (index_of c PRODUCT_COLS) preds) (\<lambda>category_preds.
        bind_error (column df DATE_COL) (\<lambda>dates.
        bind_error (date_range (date_max dates) (days + 1) hour_ns) (\<lambda>idx.
        bind_error (column df c) (\<lambda>hist.
        bind_error (floats hist) (\<lambda>hist_f.
          Inr (Reply \<lparr>hist_dates = dates, hist_values = hist,
                      forecast_dates = tl idx,
                      forecast_values = forecast_clipped hist_f category_preds,
                      metrics = (10, 15, 8), granularity = ''hours'',
                      frequency = freq, category = c, fallback = False\<rparr>))))))))) = Inr (Reply resp)"
    using assms n by (simp add: lstm_path_def Let_def)
  obtain vals where b1: "bind_error (scaler_transform env vals) (\<lambda>scaled.
        bind_error (multi_step_forecast (model_predict env) (scaler_inverse_transform env)
                      (SEQ_LEN env) (last_rows (SEQ_LEN env) scaled) days) (\<lambda>preds.
        bind_error (take_column (index_of c PRODUCT_COLS) preds) (\<lambda>category_preds.
        bind_error (column df DATE_COL) (\<lambda>dates.
        bind_error (date_range (date_max dates) (days + 1) hour_ns) (\<lambda>idx.
        bind_error (column df c) (\<lambda>hist.
        bind_error (floats hist) (\<lambda>hist_f.
          Inr (Reply \<lparr>hist_dates = dates, hist_values = hist,
                      forecast_dates = tl idx,
                      forecast_values = forecast_clipped hist_f category_preds,
                      metrics = (10, 15, 8), granularity = ''hours'',
                      frequency = freq, category = c, fallback = False\<rparr>)))))))) = Inr (Reply resp)"
    using bind_error_Inr[OF b0] by blast
  obtain scaled where b2: "bind_error (multi_step_forecast (model_predict env) (scaler_inverse_transform env)
                      (SEQ_LEN env) (last_rows (SEQ_LEN env) scaled) days) (\<lambda>preds.
        bind_error (take_column (index_of c PRODUCT_COLS) preds) (\<lambda>category_preds.
        bind_error (column df DATE_COL) (\<lambda>dates.
        bind_error (date_range (date_max dates) (days + 1) hour_ns) (\<lambda>idx.
        bind_error (column df c) (\<lambda>hist.
        bind_error (floats hist) (\<lambda>hist_f.
          Inr (Reply \<lparr>hist_dates = dates, hist_values = hist,
                      forecast_dates = tl idx,
                      forecast_values = forecast_clipped hist_f category_preds,
                      metrics = (10, 15, 8), granularity = ''hours'',
                      frequency = freq, category = c, fallback = False\<rparr>))))))) = Inr (Reply resp)"
    using bind_error_Inr[OF b1] by blast
  obtain preds where ms: "multi_step_forecast (model_predict env) (scaler_inverse_transform env)
                      (SEQ_LEN env) (last_rows (SEQ_LEN env) scaled) days = Inr preds"
    and b3: "bind_error (take_column (index_of c PRODUCT_COLS) preds) (\<lambda>category_preds.
        bind_error (column df DATE_COL) (\<lambda>dates.
        bind_error (date_range (date_max dates) (days + 1) hour_ns) (\<lambda>idx.
        bind_error (column df c) (\<lambda>hist.
        bind_error (floats hist) (\<lambda>hist_f.
          Inr (Reply \<lparr>hist_dates = dates, hist_values = hist,
                      forecast_dates = tl idx,
                      forecast_values = forecast_clipped hist_f category_preds,
                      metrics = (10, 15, 8), granularity = ''hours'',
                      frequency = freq, category = c, fallback = False\<rparr>)))))) = Inr (Reply resp)"
    using bind_error_Inr[OF b2] by blast
  obtain cp where tc: "take_column (index_of c PRODUCT_COLS) preds = Inr cp"
    and b4: "bind_error (column df DATE_COL) (\<lambda>dates.
        bind_error (date_range (date_max dates) (days + 1) hour_ns) (\<lambda>idx.
        bind_error (column df c) (\<lambda>hist.
        bind_error (floats hist) (\<lambda>hist_f.
          Inr (Reply \<lparr>hist_dates = dates, hist_values = hist,
                      forecast_dates = tl idx,
                      forecast_values = forecast_clipped hist_f cp,
                      metrics = (10, 15, 8), granularity = ''hours'',
                      frequency = freq, category = c, fallback = False\<rparr>))))) = Inr (Reply resp)"
    using bind_error_Inr[OF b3] by blast
  obtain dates where b5: "bind_error (date_range (date_max dates) (days + 1) hour_ns) (\<lambda>idx.
        bind_error (column df c) (\<lambda>hist.
        bind_error (floats hist) (\<lambda>hist_f.
          Inr (Reply \<lparr>hist_dates = dates, hist_values = hist,
                      forecast_dates = tl idx,
                      forecast_values = forecast_clipped hist_f cp,
                      metrics = (10, 15, 8), granularity = ''hours'',
                      frequency = freq, category = c, fallback = False\<rparr>)))) = Inr (Reply resp)"
    using bind_error_Inr[OF b4] by blast
  obtain idx where dr: "date_range (date_max dates) (days + 1) hour_ns = Inr idx"
    and b6: "bind_error (column df c) (\<lambda>hist.
        bind_error (floats hist) (\<lambda>hist_f.
          Inr (Reply \<lparr>hist_dates = dates, hist_values = hist,
                      forecast_dates = tl idx,
                      forecast_values = forecast_clipped hist_f cp,
                      metrics = (10, 15, 8), granularity = ''hours'',
                      frequency = freq, category = c, fallback = False\<rparr>))) = Inr (Reply resp)"
    using bind_error_Inr[OF b5] by blast
  obtain hist where b7: "bind_error (floats hist) (\<lambda>hist_f.
          Inr (Reply \<lparr>hist_dates = dates, hist_values = hist,
                      forecast_dates = tl idx,
                      forecast_values = forecast_clipped hist_f cp,
                      metrics = (10, 15, 8), granularity = ''hours'',
                      frequency = freq, category = c, fallback = False\<rparr>)) = Inr (Reply resp)"
    using bind_error_Inr[OF b6] by blast
  obtain hist_f where r: "resp = \<lparr>hist_dates = dates, hist_values = hist,
                      forecast_dates = tl idx,
                      forecast_values = forecast_clipped hist_f cp,
                      metrics = (10, 15, 8), granularity = ''hours'',
                      frequency = freq, category = c, fallback = False\<rparr>"
    using bind_error_Inr[OF b7] by auto
  have "hist_dates resp = dates \<and> forecast_dates resp = tl idx
      \<and> forecast_values resp = forecast_clipped hist_f cp"
    unfolding r by simp
  then show ?thesis using ms tc dr by blast
qed

lemma multi_step_forecast_length:
  assumes "multi_step_forecast predict unscale L w h = Inr preds"
    and "\<forall>m m'. unscale m = Inr m' \<longrightarrow> length m' = length m"
  shows "length preds = nat h"
proof -
  obtain ps where p: "forecast_steps predict L (width w) (nat h) w [] = Inr ps" "unscale ps = Inr preds"
    using assms(1) by (auto simp: multi_step_forecast_def split: sum.splits)
  have "length ps = nat h" using forecast_steps_length[OF p(1)] by simp
  then show ?thesis using assms(2) p(2) by metis
qed

lemma sales_row_date: "sales_row d vs DATE_COL = d"
  by (simp add: sales_row_def)

lemma sales_row_product:
  "c \<in> set PRODUCT_COLS \<Longrightarrow> sales_row d [v, v, v, v, v, v, v, v] c = Flt v"
  by (auto simp: sales_row_def PRODUCT_COLS_def DATE_COL_def)

lemma sales_row_other:
  "k \<notin> set (DATE_COL # PRODUCT_COLS) \<Longrightarrow> sales_row d [v, v, v, v, v, v, v, v] k = Flt NaN"
  by (auto simp: sales_row_def PRODUCT_COLS_def DATE_COL_def)

lemma replicate_8: "replicate 8 v = [v, v, v, v, v, v, v, v]"
  by (simp add: eval_nat_numeral)

lemma series_rows:
  "rows (series_frame start step n)
     = map (\<lambda>i. sales_row (Stamp (start + int i * step))
                    [Fin (real i), Fin (real i), Fin (real i), Fin (real i),
                     Fin (real i), Fin (real i), Fin (real i), Fin (real i)]) [0..<n]"
  by (simp add: series_frame_def sales_frame_def replicate_8)

lemma series_columns: "columns (series_frame start step n) = DATE_COL # PRODUCT_COLS"
  by (simp add: series_frame_def sales_frame_def)

lemma series_dates:
  "map (\<lambda>r. r DATE_COL) (rows (series_frame start step n))
     = map (\<lambda>i. Stamp (start + int i * step)) [0..<n]"
  by (simp add: series_rows sales_row_date)

lemma series_product:
  "c \<in> set PRODUCT_COLS \<Longrightarrow>
     map (\<lambda>r. r c) (rows (series_frame start step n)) = map (\<lambda>i. Flt (Fin (real i))) [0..<n]"
  by (simp add: series_rows sales_row_product)

lemma sorted_arith: "0 \<le> step \<Longrightarrow> sorted (map (\<lambda>i. start + int i * step) [0..<n])"
  by (auto simp: sorted_iff_nth_mono mult_right_mono)

lemma stamps_Stamp: "stamps (map Stamp ts) = ts"
  by (induction ts) auto

lemma series_distinct:
  assumes "0 < step"
  shows "distinct (stamps (map (\<lambda>r. r DATE_COL) (rows (series_frame start step n))))"
proof -
  have m: "map (\<lambda>i. Stamp (start + int i * step)) [0..<n]
             = map Stamp (map (\<lambda>i. start + int i * step) [0..<n])" by simp
  have "inj_on (\<lambda>i. start + int i * step) (set [0..<n])"
    using assms by (auto simp: inj_on_def)
  then have "distinct (map (\<lambda>i. start + int i * step) [0..<n])"
    by (simp add: distinct_map)
  then show ?thesis unfolding series_dates m stamps_Stamp .
qed

lemma series_clean:
  assumes "0 \<le> step"
  shows "clean_frame (series_frame start step n)"
proof -
  have s: "date_sorted DATE_COL (rows (series_frame start step n))"
  proof -
    have "\<forall>r \<in> set (rows (series_frame start step n)). is_stamp (r DATE_COL)"
      by (auto simp: series_rows sales_row_date is_stamp_def)
    moreover have "sorted (map (\<lambda>r. stamp_val (r DATE_COL)) (rows (series_frame start step n)))"
      using sorted_arith[OF assms, of start n]
      by (simp add: series_rows sales_row_date stamp_val_def comp_def)
    ultimately show ?thesis unfolding date_sorted_def
      by (intro exI[of _ "rows (series_frame start step n)"] exI[of _ "[]"]) simp
  qed
  have e: "\<forall>r \<in> set (rows (series_frame start step n)).
            is_date (r DATE_COL) \<and> (\<forall>c \<in> set PRODUCT_COLS. \<not> isna (r c))
            \<and> (\<forall>k. k \<notin> set (DATE_COL # PRODUCT_COLS) \<longrightarrow> r k = Flt NaN)"
    by (auto simp: series_rows sales_row_date sales_row_product is_date_def isna_def
             intro: sales_row_other)
  show ?thesis unfolding clean_frame_def using series_columns s e by blast
qed

lemma series_prep:
  assumes "0 < step" "argsort_ok a"
  shows "prep_dataframe a parse (series_frame start step n) = Inr (series_frame start step n)"
proof -
  have c: "clean_frame (series_frame start step n)" using assms(1) by (intro series_clean) simp
  show ?thesis using assms(2) c series_distinct[OF assms(1)] by (rule clean_frame_fixed)
qed

lemma series_sort:
  assumes "0 < step" "argsort_ok a"
  shows "sort_values a DATE_COL (series_frame start step n) = Inr (series_frame start step n)"
proof -
  have c: "clean_frame (series_frame start step n)" using assms(1) by (intro series_clean) simp
  have cols: "DATE_COL \<in> set (columns (series_frame start step n))"
    by (simp add: series_columns)
  have ds: "date_sorted DATE_COL (rows (series_frame start step n))"
    using c unfolding clean_frame_def by blast
  show ?thesis using assms(2) cols ds series_distinct[OF assms(1)] by (rule date_sorted_id)
qed

lemma diffs_arith:
  "diffs (map (\<lambda>i. Stamp (start + int i * step)) [k..<k + m]) = replicate (m - 1) step"
proof (induction m arbitrary: k)
  case 0
  then show ?case by simp
next
  case (Suc m)
  show ?case
  proof (cases m)
    case 0
    then show ?thesis by simp
  next
    case (Suc m')
    have u: "[k..<k + Suc (Suc m')] = k # Suc k # [Suc (Suc k)..<Suc k + Suc m']"
      by (simp add: upt_conv_Cons)
    have u': "[Suc k..<Suc k + Suc m'] = Suc k # [Suc (Suc k)..<Suc k + Suc m']"
      by (simp add: upt_conv_Cons)
    have "diffs (map (\<lambda>i. Stamp (start + int i * step)) [k..<k + Suc (Suc m')])
          = step # diffs (map (\<lambda>i. Stamp (start + int i * step)) [Suc k..<Suc k + Suc m'])"
      unfolding u u' by (simp add: algebra_simps)
    also have "\<dots> = step # replicate (Suc m' - 1) step"
      using Suc.IH[of "Suc k"] Suc by simp
    finally show ?thesis using Suc by simp
  qed
qed

lemma series_hourly:
  assumes "3 \<le> n" "argsort_ok a"
  shows "detect_frequency a regular_inference (series_frame start hour_ns n) = Inr ''H''"
proof -
  have p: "(0::int) < hour_ns" by (simp add: hour_ns_def)
  have c: "column (series_frame start hour_ns n) DATE_COL
            = Inr (map (\<lambda>i. Stamp (start + int i * hour_ns)) [0..<n])"
    by (simp add: column_def series_columns series_dates)
  have d: "diffs (map (\<lambda>i. Stamp (start + int i * hour_ns)) [0..<n]) = replicate (n - 1) hour_ns"
    using diffs_arith[of start hour_ns 0 n] by simp
  have r: "pd_infer_freq regular_inference (map (\<lambda>i. Stamp (start + int i * hour_ns)) [0..<n])
             = Inr (Some ''h'')"
    using assms(1) by (simp add: pd_infer_freq_def regular_inference_def d list_all_iff)
  have i: "inferred_frequency (Some ''h'') = Some ''H''"
    by (simp add: inferred_frequency_def startswith_def lower_def lower_char_def)
  show ?thesis
    unfolding detect_frequency_def by (simp add: series_sort[OF p assms(2)] c r i)
qed

lemma lstm_path_ok:
  assumes "\<not> length (rows df) < SEQ_LEN env"
    and "values_matrix df PRODUCT_COLS = Inr vals"
    and "scaler_transform env vals = Inr scaled"
    and "multi_step_forecast (model_predict env) (scaler_inverse_transform env)
           (SEQ_LEN env) (last_rows (SEQ_LEN env) scaled) days = Inr preds"
    and "take_column (index_of c PRODUCT_COLS) preds = Inr cp"
    and "column df DATE_COL = Inr dates"
    and "date_range (date_max dates) (days + 1) hour_ns = Inr idx"
    and "column df c = Inr hist"
    and "floats hist = Inr hist_f"
  shows "lstm_path env df days c freq =
     Inr (Reply \<lparr>hist_dates = dates, hist_values = hist, forecast_dates = tl idx,
                 forecast_values = forecast_clipped hist_f cp,
                 metrics = (10, 15, 8), granularity = ''hours'',
                 frequency = freq, category = c, fallback = False\<rparr>)"
  using assms by (simp add: lstm_path_def Let_def)

lemma sequence_map_Inr: "sequence (map (\<lambda>x. Inr (g x)) xs) = Inr (map g xs)"
  by (induction xs) auto

lemma floats_Flt: "floats (map (\<lambda>x. Flt (g x)) xs) = Inr (map g xs)"
  using sequence_map_Inr[of g xs] by (simp add: floats_def comp_def)

lemma series_values:
  "values_matrix (series_frame start step n) PRODUCT_COLS
     = Inr (map (\<lambda>i. [Fin (real i), Fin (real i), Fin (real i), Fin (real i),
                       Fin (real i), Fin (real i), Fin (real i), Fin (real i)]) [0..<n])"
proof -
  have "floats (map (sales_row d [v, v, v, v, v, v, v, v]) PRODUCT_COLS) = Inr [v, v, v, v, v, v, v, v]"
    for d v
  proof -
    have "map (sales_row d [v, v, v, v, v, v, v, v]) PRODUCT_COLS = map (\<lambda>c. Flt v) PRODUCT_COLS"
      by (rule map_cong) (simp_all add: sales_row_product)
    then show ?thesis using floats_Flt[of "\<lambda>c. v" PRODUCT_COLS] by (simp add: PRODUCT_COLS_def)
  qed
  then show ?thesis
    using sequence_map_Inr[of "\<lambda>i. [Fin (real i), Fin (real i), Fin (real i), Fin (real i),
                       Fin (real i), Fin (real i), Fin (real i), Fin (real i)]" "[0..<n]"]
    by (simp add: values_matrix_def series_rows comp_def)
qed

lemma one_step_persistence:
  assumes "seq \<noteq> []" "\<forall>r \<in> set seq. length r = 8" "length seq = L"
  shows "multi_step_forecast persistence_model identity_scaler L (last_rows L seq) 1 = Inr [last seq]"
proof -
  have lr: "last_rows L seq = seq" using assms(3) by (simp add: last_rows_def)
  have w: "width seq = 8" using assms(1,2) by (rule width_rect)
  have ne: "n_elems seq = L * 8" using n_elems_rect[OF assms(2)] assms(3) by simp
  have l: "length (last seq) = 8" using assms(1,2) by simp
  have "forecast_steps persistence_model L 8 (Suc 0) seq [] = Inr [last seq]"
    using ne l by (simp add: persistence_model_def)
  then show ?thesis
    by (simp add: multi_step_forecast_def lr w identity_scaler_def)
qed

lemma date_max_arith:
  assumes "0 \<le> step" "0 < n"
  shows "date_max (map (\<lambda>i. Stamp (start + int i * step)) [0..<n]) = Stamp (start + int (n - 1) * step)"
proof -
  let ?ts = "map (\<lambda>i. start + int i * step) [0..<n]"
  have m: "map (\<lambda>i. Stamp (start + int i * step)) [0..<n] = map Stamp ?ts" by simp
  obtain t ts where c: "?ts = t # ts" using assms(2) by (cases ?ts) auto
  have "Max (set ?ts) = start + int (n - 1) * step"
  proof (rule Max_eqI)
    show "finite (set ?ts)" by simp
    have "n - 1 \<in> set [0..<n]" using assms(2) by simp
    then show "start + int (n - 1) * step \<in> set ?ts" unfolding set_map by (rule rev_image_eqI) simp
    fix y assume "y \<in> set ?ts"
    then obtain i where "i < n" "y = start + int i * step" by auto
    then show "y \<le> start + int (n - 1) * step"
      using assms(1) by (simp add: mult_right_mono)
  qed
  then have "fold max ts t = start + int (n - 1) * step"
    unfolding c by (simp only: Max.set_eq_fold)
  then show ?thesis unfolding m date_max_def stamps_Stamp c by simp
qed

lemma Max_upto: "0 < n \<Longrightarrow> Max (set (map real [0..<n])) = real (n - 1)"
proof (rule Max_eqI)
  show "finite (set (map real [0..<n]))" by simp
  show "\<And>y. y \<in> set (map real [0..<n]) \<Longrightarrow> y \<le> real (n - 1)" by auto
  assume "0 < n"
  then have "n - 1 \<in> set [0..<n]" by simp
  then show "real (n - 1) \<in> set (map real [0..<n])" unfolding set_map by (rule rev_image_eqI) simp
qed

lemma hist_std_nonneg: "\<exists>s. hist_std (map Fin hs) = Fin s \<and> 0 \<le> s"
  unfolding hist_std_Fin by (auto intro!: divide_nonneg_nonneg sum_list_nonneg)

lemma clip_last:
  assumes "2 \<le> n"
  shows "forecast_clipped (map Fin (map real [0..<n])) [Fin (real (n - 1))] = [Fin (real (n - 1))]"
proof -
  let ?hs = "map real [0..<n]"
  have mx: "Max (set ?hs) = real (n - 1)" using assms by (intro Max_upto) simp
  have ne: "?hs \<noteq> []" using assms by simp
  have hm: "hist_max (map Fin ?hs) = Fin (real (n - 1))"
    using assms ne unfolding hist_max_Fin mx by simp
  obtain s where s: "hist_std (map Fin ?hs) = Fin s" "0 \<le> s"
    using hist_std_nonneg by blast
  have "clip_max (map Fin ?hs) = Fin (real (n - 1) + 2 * s)"
    unfolding clip_max_def hm s(1) by simp
  then show ?thesis using s(2)
    unfolding forecast_clipped_def by (simp add: py_max2_Fin py_min2_Fin del: map_map)
qed

lemma hourly_reply:
  "\<exists>resp. predict_csv sample_env hourly_request = Reply resp \<and> frequency resp = ''H''
      \<and> forecast_dates resp = [1389254400000000000] \<and> forecast_values resp = [Fin 167]"
proof -
  let ?f = "series_frame 1388649600000000000 hour_ns 168"
  let ?vals = "map (\<lambda>i. [Fin (real i), Fin (real i), Fin (real i), Fin (real i),
                       Fin (real i), Fin (real i), Fin (real i), Fin (real i)]) [0..<168]"
  have p: "(0::int) < hour_ns" by (simp add: hour_ns_def)
  have p0: "(0::int) \<le> hour_ns" by (simp add: hour_ns_def)
  have upload: "file_field hourly_request = Some ?f" by (simp add: hourly_request_def)
  have days: "requested_days sample_env hourly_request = Inr 1" by code_simp
  have rd: "pd_read_csv sample_env ?f = Inr ?f" by (simp add: sample_env_def)
  have prep: "prep_dataframe (np_argsort sample_env) (parse_date sample_env) ?f = Inr ?f"
    using series_prep[OF p stable_argsort_ok] by (simp add: sample_env_def)
  have freq: "detect_frequency (np_argsort sample_env) (freq_inference sample_env) ?f = Inr ''H''"
    using series_hourly[of 168, OF _ stable_argsort_ok] by (simp add: sample_env_def)
  have cat: "default_category (category_field hourly_request) = ''M01AB''" by code_simp
  have c: "''M01AB'' \<in> set PRODUCT_COLS" by (simp add: PRODUCT_COLS_def)
  have 1: "\<not> length (rows ?f) < SEQ_LEN sample_env"
    by (simp add: series_rows sample_env_def)
  have 2: "values_matrix ?f PRODUCT_COLS = Inr ?vals" by (rule series_values)
  have 3: "scaler_transform sample_env ?vals = Inr ?vals"
    by (simp add: sample_env_def identity_scaler_def)
  have lst: "last ?vals = [Fin 167, Fin 167, Fin 167, Fin 167, Fin 167, Fin 167, Fin 167, Fin 167]"
    by (simp add: last_map)
  have 4: "multi_step_forecast (model_predict sample_env) (scaler_inverse_transform sample_env)
           (SEQ_LEN sample_env) (last_rows (SEQ_LEN sample_env) ?vals) 1
           = Inr [[Fin 167, Fin 167, Fin 167, Fin 167, Fin 167, Fin 167, Fin 167, Fin 167]]"
    using one_step_persistence[of ?vals 168] lst by (simp add: sample_env_def)
  have 5: "take_column (index_of ''M01AB'' PRODUCT_COLS)
             [[Fin 167, Fin 167, Fin 167, Fin 167, Fin 167, Fin 167, Fin 167, Fin 167]] = Inr [Fin 167]"
    by (simp add: take_column_def PRODUCT_COLS_def)
  have 6: "column ?f DATE_COL = Inr (map (\<lambda>i. Stamp (1388649600000000000 + int i * hour_ns)) [0..<168])"
    by (simp add: column_def series_columns series_dates)
  have dm: "date_max (map (\<lambda>i. Stamp (1388649600000000000 + int i * hour_ns)) [0..<168])
             = Stamp 1389250800000000000"
    using date_max_arith[OF p0, of 168 1388649600000000000] by (simp add: hour_ns_def)
  have 7: "date_range (date_max (map (\<lambda>i. Stamp (1388649600000000000 + int i * hour_ns)) [0..<168]))
             (1 + 1) hour_ns = Inr [1389250800000000000, 1389254400000000000]"
    unfolding dm by (simp add: date_range_def hour_ns_def i8max_def eval_nat_numeral)
  have 8: "column ?f ''M01AB'' = Inr (map (\<lambda>i. Flt (Fin (real i))) [0..<168])"
    using c by (simp add: column_def series_columns series_product)
  have 9: "floats (map (\<lambda>i. Flt (Fin (real i))) [0..<168]) = Inr (map Fin (map real [0..<168]))"
    using floats_Flt[of "\<lambda>i. Fin (real i)" "[0..<168]"] by (simp add: comp_def)
  have cl: "forecast_clipped (map Fin (map real [0..<168])) [Fin 167] = [Fin 167]"
    using clip_last[of 168] by simp
  have l: "lstm_path sample_env ?f 1 ''M01AB'' ''H'' =
     Inr (Reply \<lparr>hist_dates = map (\<lambda>i. Stamp (1388649600000000000 + int i * hour_ns)) [0..<168],
                 hist_values = map (\<lambda>i. Flt (Fin (real i))) [0..<168],
                 forecast_dates = tl [1389250800000000000, 1389254400000000000],
                 forecast_values = forecast_clipped (map Fin (map real [0..<168])) [Fin 167],
                 metrics = (10, 15, 8), granularity = ''hours'',
                 frequency = ''H'', category = ''M01AB'', fallback = False\<rparr>)"
    using 1 2 3 4 5 6 7 8 9 by (rule lstm_path_ok)
  have "predict_csv sample_env hourly_request =
     Reply \<lparr>hist_dates = map (\<lambda>i. Stamp (1388649600000000000 + int i * hour_ns)) [0..<168],
                 hist_values = map (\<lambda>i. Flt (Fin (real i))) [0..<168],
                 forecast_dates = tl [1389250800000000000, 1389254400000000000],
                 forecast_values = forecast_clipped (map Fin (map real [0..<168])) [Fin 167],
                 metrics = (10, 15, 8), granularity = ''hours'',
                 frequency = ''H'', category = ''M01AB'', fallback = False\<rparr>"
    unfolding predict_csv_steps[OF upload days rd prep freq] cat
    by (simp only: simp_thms if_True l sum.case)
  then show ?thesis unfolding cl by simp
qed

text \<open>
  Claim C2, as the code has it. Whenever the route answers on the hourly path, for a
  scaler whose inverse keeps the number of rows, the forecast has exactly \<open>days\<close>
  values, the horizon being \<open>days\<close> and not \<open>days * 24\<close>; its dates are one hour apart,
  from one hour after the latest historical timestamp \<open>start\<close>, and all of them are
  later than \<open>start\<close>, which no historical timestamp exceeds.
\<close>

theorem hourly_forecast_block:
  assumes reply: "predict_csv env req = Reply resp"
    and hourly: "frequency resp = ''H''"
    and days: "requested_days env req = Inr days"
    and scaler: "\<forall>m m'. scaler_inverse_transform env m = Inr m' \<longrightarrow> length m' = length m"
  shows "length (forecast_values resp) = nat days
     \<and> (\<exists>start. date_max (hist_dates resp) = Stamp start
           \<and> (\<forall>t \<in> set (stamps (hist_dates resp)). t \<le> start)
           \<and> forecast_dates resp = map (\<lambda>k. start + int k * hour_ns) [1..<Suc (nat days)]
           \<and> (\<forall>d \<in> set (forecast_dates resp). start < d))"
proof -
  obtain f days' df0 df freq where
      d': "requested_days env req = Inr days'"
    and p: "(if freq = ''H'' then lstm_path env df days' (default_category (category_field req)) freq
               else prophet_path env df days' (default_category (category_field req)) freq)
              = Inr (Reply resp)"
    using predict_csv_Reply[OF reply] by blast
  have dd: "days' = days" using d' days by simp
  have fh: "freq = ''H''"
  proof (rule ccontr)
    assume "freq \<noteq> ''H''"
    then have "frequency resp = freq" using p prophet_path_category by fastforce
    then show False using hourly \<open>freq \<noteq> ''H''\<close> by simp
  qed
  have l: "lstm_path env df days (default_category (category_field req)) freq = Inr (Reply resp)"
    using p fh dd by simp
  obtain scaled preds cp dates idx hist_f where
      ms: "multi_step_forecast (model_predict env) (scaler_inverse_transform env)
         (SEQ_LEN env) (last_rows (SEQ_LEN env) scaled) days = Inr preds"
    and tc: "take_column (index_of (default_category (category_field req)) PRODUCT_COLS) preds = Inr cp"
    and dr: "date_range (date_max dates) (days + 1) hour_ns = Inr idx"
    and r: "hist_dates resp = dates" "forecast_dates resp = tl idx"
       "forecast_values resp = forecast_clipped hist_f cp"
    using lstm_path_Reply[OF l] by blast
  have len: "length (forecast_values resp) = nat days"
    using multi_step_forecast_length[OF ms scaler] take_column_length[OF tc] r(3)
    by (simp add: forecast_clipped_def)
  obtain start where s: "date_max dates = Stamp start" "0 \<le> days + 1"
      "idx = map (\<lambda>k. start + int k * hour_ns) [0..<nat (days + 1)]"
    using date_range_Inr[OF dr] by blast
  have fd: "forecast_dates resp = map (\<lambda>k. start + int k * hour_ns) [1..<Suc (nat days)]"
  proof -
    have "- 1 \<le> days" using s(2) by simp
    then have "tl (map (\<lambda>k. start + int k * hour_ns) [0..<nat (days + 1)])
                = map (\<lambda>k. start + int k * hour_ns) [1..<Suc (nat days)]"
      by (rule tl_date_range_neg)
    then show ?thesis unfolding r(2) s(3) .
  qed
  have up: "\<forall>t \<in> set (stamps (hist_dates resp)). t \<le> start"
    using date_max_upper s(1) r(1) by blast
  have after: "\<forall>d \<in> set (forecast_dates resp). start < d"
    unfolding fd by (auto simp: hour_ns_def)
  show ?thesis using len s(1) r(1) fd up after by blast
qed

text \<open>168 hourly records of 8 channels with \<open>days = 1\<close>: the route answers on the hourly
  path with one forecast value.\<close>

theorem hourly_forecast_block_witness:
  "requested_days sample_env hourly_request = Inr 1
   \<and> forecast_count (predict_csv sample_env hourly_request) = Some 1"
proof -
  obtain resp where r: "predict_csv sample_env hourly_request = Reply resp" "frequency resp = ''H''"
    using hourly_reply by blast
  have days: "requested_days sample_env hourly_request = Inr 1" by code_simp
  have sc: "\<forall>m m'. scaler_inverse_transform sample_env m = Inr m' \<longrightarrow> length m' = length m"
    by (simp add: sample_env_def identity_scaler_def)
  have "length (forecast_values resp) = nat 1"
    using hourly_forecast_block[OF r days sc] by blast
  then show ?thesis using days r(1) by (simp add: forecast_count_def)
qed

text \<open>In that answer the forecast block has one entry, dated one hour after the last of
  the 168 records, at 2014-01-09 08:00, and not 24 entries.\<close>

theorem hourly_forecast_block_counterexample:
  "forecast_block (predict_csv sample_env hourly_request) = Some ([1389254400000000000], [Fin 167])"
  using hourly_reply by (auto simp: forecast_block_def)

subsection \<open>Validation\<close>

lemma check_numeric_ok:
  assumes "\<forall>field \<in> set fs. \<forall>v e. map_of d field = Some v \<and> py_float v = Inl e \<longrightarrow> caught e"
  shows "check_numeric py_float py_str i d fs errors =
           Inr (errors @ concat (map (\<lambda>field. case map_of d field of
                             None \<Rightarrow> []
                           | Some v \<Rightarrow> if isl (py_float v) then [numeric_message i field (py_str v)]
                                       else []) fs))"
  using assms
proof (induction fs arbitrary: errors)
  case Nil
  then show ?case by simp
next
  case (Cons f fs)
  then show ?case by (auto split: option.splits sum.splits)
qed

lemma check_date_eq:
  "check_date pd py_str i d errors =
     errors @ (case map_of d ''date'' of
               None \<Rightarrow> []
             | Some v \<Rightarrow> if isl (pd v) then [date_message i (py_str v)] else [])"
  by (auto simp: check_date_def split: option.splits sum.splits)

lemma check_records_ok:
  assumes "\<forall>p \<in> set ps. \<forall>d field v e. snd p = JDict d \<and> field \<in> set numeric_fields
              \<and> map_of d field = Some v \<and> py_float v = Inl e \<longrightarrow> caught e"
  shows "check_records pd py_float py_str ps errors =
           Inr (errors @ concat (map (\<lambda>(i, record). record_problems pd py_float py_str i record) ps))"
  using assms
proof (induction ps arbitrary: errors)
  case Nil
  then show ?case by simp
next
  case (Cons p ps)
  obtain i r where p: "p = (i, r)" by (cases p)
  have pr: "\<forall>p \<in> set ps. \<forall>d field v e. snd p = JDict d \<and> field \<in> set numeric_fields
              \<and> map_of d field = Some v \<and> py_float v = Inl e \<longrightarrow> caught e"
    using Cons.prems by (meson list.set_intros(2))
  have rest: "\<And>errs. check_records pd py_float py_str ps errs =
           Inr (errs @ concat (map (\<lambda>(i, record). record_problems pd py_float py_str i record) ps))"
    using Cons.IH[OF pr] .
  show ?case
  proof (cases "\<exists>d. r = JDict d")
    case True
    then obtain d where d: "r = JDict d" by blast
    have "\<forall>field \<in> set numeric_fields. \<forall>v e. map_of d field = Some v \<and> py_float v = Inl e \<longrightarrow> caught e"
      using Cons.prems p d by simp
    from check_numeric_ok[OF this]
    show ?thesis
      by (simp add: p d rest check_date_eq check_required_def record_problems_def
            numeric_problems_def lacks_def)
  next
    case False
    then show ?thesis
      by (cases r) (simp_all add: p rest record_problems_def)
  qed
qed

lemma digit_inj:
  assumes "(i::nat) < 5" "(j::nat) < 5"
  shows "((char_of (48 + i) :: char) = char_of (48 + j)) = (i = j)"
proof -
  have "(of_char (char_of (48 + i) :: char) :: nat) = 48 + i"
       "(of_char (char_of (48 + j) :: char) :: nat) = 48 + j"
    using assms by simp_all
  then show ?thesis by (metis add_left_cancel)
qed

lemma missing_message_eq:
  "i < 5 \<Longrightarrow> j < 5 \<Longrightarrow> (missing_message i c = missing_message j col) = (i = j \<and> c = col)"
  by (simp add: missing_message_def digit_inj)

lemma reports_missing_iff: "reports_missing col m = (\<exists>j<5. m = missing_message j col)"
  by (auto simp: reports_missing_def)

lemma reports_missing_missing:
  assumes "i < 5"
  shows "reports_missing col (missing_message i c) = (c = col)"
  unfolding reports_missing_iff using assms missing_message_eq by blast

lemma reports_missing_date:
  "i < 5 \<Longrightarrow> \<not> reports_missing col (date_message i s)"
  by (auto simp: reports_missing_iff missing_message_def date_message_def)

lemma reports_missing_numeric:
  "i < 5 \<Longrightarrow> \<not> reports_missing col (numeric_message i f s)"
  by (auto simp: reports_missing_iff missing_message_def numeric_message_def)

lemma reports_missing_not_dict:
  "i < 5 \<Longrightarrow> \<not> reports_missing col (not_dict_message i)"
  by (auto simp: reports_missing_iff missing_message_def not_dict_message_def)

lemma filter_numeric_problems:
  "i < 5 \<Longrightarrow> filter (reports_missing col) (numeric_problems py_float py_str i d) = []"
  by (auto simp: numeric_problems_def filter_empty_conv reports_missing_numeric split: option.splits if_splits)

lemma filter_required:
  assumes "col \<in> set required_columns"
  shows "filter (\<lambda>c. c = col) (filter P required_columns) = (if P col then [col] else [])"
  using assms by (auto simp: required_columns_def)

lemma filter_record_problems:
  assumes "i < 5" "col \<in> set required_columns"
  shows "filter (reports_missing col) (record_problems pd py_float py_str i r)
           = (if lacks col r then [missing_message i col] else [])"
proof (cases "\<exists>d. r = JDict d")
  case True
  then obtain d where d: "r = JDict d" by blast
  have m: "filter (reports_missing col) (map (missing_message i) (filter (\<lambda>c. lacks c (JDict d)) required_columns))
        = (if lacks col r then [missing_message i col] else [])"
    using filter_required[OF assms(2), of "\<lambda>c. lacks c (JDict d)"]
    by (simp add: filter_map comp_def reports_missing_missing[OF assms(1)] d)
  have dt: "filter (reports_missing col) (case map_of d ''date'' of
               None \<Rightarrow> []
             | Some v \<Rightarrow> if isl (pd v) then [date_message i (py_str v)] else []) = []"
    using reports_missing_date[OF assms(1)] by (simp split: option.splits)
  show ?thesis
    unfolding record_problems_def d
    using m dt filter_numeric_problems[OF assms(1)] by (simp add: d)
next
  case False
  then show ?thesis
    using reports_missing_not_dict[OF assms(1)]
    by (cases r) (simp_all add: record_problems_def lacks_def)
qed

lemma concat_if_singleton:
  "concat (map (\<lambda>p. if Q p then [g p] else []) ps) = map g (filter Q ps)"
  by (induction ps) simp_all

lemma filter_problems:
  assumes "\<forall>p \<in> set ps. fst p < 5" "col \<in> set required_columns"
  shows "filter (reports_missing col)
           (concat (map (\<lambda>(i, record). record_problems pd py_float py_str i record) ps))
           = map (\<lambda>(i, record). missing_message i col) (filter (\<lambda>(i, record). lacks col record) ps)"
proof -
  have "\<And>p. p \<in> set ps \<Longrightarrow>
           filter (reports_missing col) (record_problems pd py_float py_str (fst p) (snd p))
           = (if lacks col (snd p) then [missing_message (fst p) col] else [])"
    using filter_record_problems[OF _ assms(2)] assms(1) by blast
  then have "map (\<lambda>p. filter (reports_missing col) (record_problems pd py_float py_str (fst p) (snd p))) ps
      = map (\<lambda>p. if lacks col (snd p) then [missing_message (fst p) col] else []) ps"
    by simp
  then show ?thesis
    by (simp add: filter_concat concat_if_singleton split_def comp_def del: map_eq_conv)
qed

lemma enumerate_take_small: "p \<in> set (enumerate 0 (take 5 xs)) \<Longrightarrow> fst p < 5"
  by (cases p) (auto simp: in_set_enumerate_eq)

text \<open>
  Claim C9, as the code has it. For a non-empty list of records, when \<open>float\<close> raises
  nothing but a \<open>ValueError\<close> or a \<open>TypeError\<close> on the numeric fields of the first
  five records, the validator returns a report: the data set is valid exactly when the
  list of errors is empty, and that list holds, record after record, the problems of
  each of the first five records; the records after the fifth are not looked at. A
  required column is reported once for every one of these records that is a dictionary
  without it, with the index of the record, and not once for the data set.
\<close>

theorem validate_reports_per_record:
  assumes "records \<noteq> []"
    and "\<forall>d field v e. JDict d \<in> set (take 5 records) \<and> field \<in> set numeric_fields
            \<and> map_of d field = Some v \<and> py_float v = Inl e \<longrightarrow> caught e"
  shows "\<exists>errors. validate_data_format pd py_float py_str (JList records) = Inr (errors = [], errors)
       \<and> errors = concat (map (\<lambda>(i, record). record_problems pd py_float py_str i record)
                              (enumerate 0 (take 5 records)))
       \<and> (\<forall>col \<in> set required_columns.
             filter (reports_missing col) errors =
               map (\<lambda>(i, record). missing_message i col)
                   (filter (\<lambda>(i, record). lacks col record) (enumerate 0 (take 5 records))))"
proof -
  let ?ps = "enumerate 0 (take 5 records)"
  let ?errors = "concat (map (\<lambda>(i, record). record_problems pd py_float py_str i record) ?ps)"
  have "\<forall>p \<in> set ?ps. \<forall>d field v e. snd p = JDict d \<and> field \<in> set numeric_fields
              \<and> map_of d field = Some v \<and> py_float v = Inl e \<longrightarrow> caught e"
  proof (intro ballI allI impI)
    fix p d field v e
    assume p: "p \<in> set ?ps"
      and a: "snd p = JDict d \<and> field \<in> set numeric_fields \<and> map_of d field = Some v \<and> py_float v = Inl e"
    have "snd p \<in> set (take 5 records)"
      using p nth_mem[of "fst p" "take 5 records"] by (auto simp: in_set_enumerate_eq)
    then have "JDict d \<in> set (take 5 records)" using a by simp
    then show "caught e" using assms(2) a by blast
  qed
  then have c: "check_records pd py_float py_str ?ps [] = Inr ?errors"
    using check_records_ok[of ?ps py_float pd py_str "[]"] by simp
  have t: "take (min 5 (length records)) records = take 5 records"
    by (simp add: min_def)
  have "validate_data_format pd py_float py_str (JList records) =
          bind_error (check_records pd py_float py_str ?ps []) (\<lambda>errors. Inr (errors = [], errors))"
    using assms(1) by (simp add: validate_data_format_def Let_def t)
  then have v: "validate_data_format pd py_float py_str (JList records) = Inr (?errors = [], ?errors)"
    by (simp only: c bind_error.simps)
  have f: "\<forall>col \<in> set required_columns.
             filter (reports_missing col) ?errors =
               map (\<lambda>(i, record). missing_message i col) (filter (\<lambda>(i, record). lacks col record) ?ps)"
    using filter_problems[of ?ps _ pd py_float py_str] enumerate_take_small by blast
  show ?thesis using v f by blast
qed

text \<open>Two records without the column \<open>region\<close>, the second with a date and a number
  that do not parse: four errors, two of them for the missing column.\<close>

theorem validate_reports_per_record_witness:
  "validate_data_format json_to_datetime json_float json_str (JList [sale, bad_sale]) =
     Inr (False, [''Record 0 missing required column: region'',
                  ''Record 1 missing required column: region'',
                  ''Record 1 has invalid date format: yesterday'',
                  ''Record 1 has non-numeric sales: many''])
   \<and> filter (reports_missing ''region'')
        (snd (projr (validate_data_format json_to_datetime json_float json_str
                       (JList [sale, bad_sale])))) =
       [''Record 0 missing required column: region'',
        ''Record 1 missing required column: region'']"
proof -
  have ne: "[sale, bad_sale] \<noteq> []" by simp
  have fl: "\<forall>d field v e. JDict d \<in> set (take 5 [sale, bad_sale]) \<and> field \<in> set numeric_fields
            \<and> map_of d field = Some v \<and> json_float v = Inl e \<longrightarrow> caught e"
    by (auto simp: sale_def bad_sale_def numeric_fields_def json_float_def decimal_int_def
             split: if_splits)
  obtain errors where
    v: "validate_data_format json_to_datetime json_float json_str (JList [sale, bad_sale])
          = Inr (errors = [], errors)"
    and f: "\<forall>col \<in> set required_columns.
             filter (reports_missing col) errors =
               map (\<lambda>(i, record). missing_message i col)
                   (filter (\<lambda>(i, record). lacks col record) (enumerate 0 (take 5 [sale, bad_sale])))"
    using validate_reports_per_record[OF ne fl, of json_to_datetime json_str] by blast
  have c: "''region'' \<in> set required_columns" by (simp add: required_columns_def)
  have r: "map (\<lambda>(i, record). missing_message i ''region'')
             (filter (\<lambda>(i, record). lacks ''region'' record) (enumerate 0 (take 5 [sale, bad_sale])))
           = [''Record 0 missing required column: region'',
              ''Record 1 missing required column: region'']"
    by code_simp
  have ev: "validate_data_format json_to_datetime json_float json_str (JList [sale, bad_sale]) =
     Inr (False, [''Record 0 missing required column: region'',
                  ''Record 1 missing required column: region'',
                  ''Record 1 has invalid date format: yesterday'',
                  ''Record 1 has non-numeric sales: many''])"
    by code_simp
  have "filter (reports_missing ''region'') errors =
          [''Record 0 missing required column: region'',
           ''Record 1 missing required column: region'']"
    using f c r by simp
  then show ?thesis using v ev by simp
qed

text \<open>Three records that all lack the column \<open>region\<close>: the column is reported three
  times, once per record.\<close>

theorem validate_reports_per_record_counterexample:
  "validate_data_format json_to_datetime json_float json_str (JList [sale, sale, sale]) =
     Inr (False, [''Record 0 missing required column: region'',
                  ''Record 1 missing required column: region'',
                  ''Record 2 missing required column: region''])"
  by code_simp

end
